theory Spec2Isabelle
  imports Main "HOL-Library.Word"
begin

unbundle bit_operations_syntax

section \<open>Go run-time and library functions used by ttk\<close>

text \<open>
  Go strings are byte sequences: a string is a \<^typ>\<open>char list\<close>, one \<^typ>\<open>char\<close> per
  byte.  Go's \<open>int\<close> is taken to be 64 bits wide; no arithmetic of ttk on the inputs
  considered here leaves that range, so \<^typ>\<open>int\<close> is used for it and the one place where
  the width matters (\<open>strconv.Atoi\<close>) checks the range explicitly.  A \<open>rune\<close> is
  an \<^typ>\<open>int\<close> as well.
\<close>

type_synonym rune = int

datatype num_err = ErrSyntax | ErrRange

text \<open>
  The errors of ttk.go, the \<open>*strconv.NumError\<close> that \<open>DecodeColor\<close> passes on, and
  \<open>RuntimePanic\<close>, which is not an error value of Go but stands for a run-time panic
  (slice bounds or index out of range, nil dereference).
\<close>

datatype error =
    ErrNotEscSequence
  | ErrInvalidColor
  | ErrInvalidAttribute
  | ErrInvalidForeground
  | ErrInvalidBackground
  | NumError string num_err
  | RuntimePanic

definition ESC :: char where
  "ESC = CHR 0x1B"

text \<open>\<open>s[lo:hi]\<close> on a string: panics unless \<open>0 \<le> lo \<le> hi \<le> len(s)\<close>.\<close>

definition substr :: "string \<Rightarrow> int \<Rightarrow> int \<Rightarrow> error + string" where
  "substr s lo hi =
     (if 0 \<le> lo \<and> lo \<le> hi \<and> hi \<le> int (length s)
      then Inr (take (nat (hi - lo)) (drop (nat lo) s))
      else Inl RuntimePanic)"

definition HasPrefix :: "string \<Rightarrow> string \<Rightarrow> bool" where
  "HasPrefix s p = (length p \<le> length s \<and> take (length p) s = p)"

definition HasSuffix :: "string \<Rightarrow> string \<Rightarrow> bool" where
  "HasSuffix s p = (length p \<le> length s \<and> drop (length s - length p) s = p)"

text \<open>\<open>strings.Index\<close>: the first position at which \<open>sub\<close> occurs, or -1.\<close>

fun Index :: "string \<Rightarrow> string \<Rightarrow> int" where
  "Index [] sub = (if sub = [] then 0 else - 1)"
| "Index (c # cs) sub =
     (if HasPrefix (c # cs) sub then 0
      else (let r = Index cs sub in if r < 0 then - 1 else r + 1))"

text \<open>\<open>strings.Split\<close> with a separator of one byte.\<close>

fun Split :: "string \<Rightarrow> char \<Rightarrow> string list" where
  "Split [] sep = [[]]"
| "Split (c # cs) sep =
     (if c = sep then [] # Split cs sep
      else (case Split cs sep of
              [] \<Rightarrow> [[c]]
            | p # ps \<Rightarrow> (c # p) # ps))"

text \<open>\<open>fmt.Sprintf("%v", n)\<close> for an \<open>int\<close>: decimal digits, with a minus sign.\<close>

function digits :: "nat \<Rightarrow> string" where
  "digits n = (if n < 10 then [char_of (48 + n)]
               else digits (n div 10) @ [char_of (48 + n mod 10)])"
  by pat_completeness auto
termination
  by (relation "measure id") auto

declare digits.simps [simp del]

definition itoa :: "int \<Rightarrow> string" where
  "itoa n = (if n < 0 then CHR ''-'' # digits (nat (- n)) else digits (nat n))"

text \<open>
  \<open>strconv.Atoi\<close> (64-bit): an optional sign, then decimal digits only.  The scan of
  \<open>ParseUint\<close> stops at the first byte that is no digit (syntax error) or at the first
  overflow of 64 unsigned bits (range error), whichever comes first; the signed range is
  checked at the end.
\<close>

definition is_digit :: "char \<Rightarrow> bool" where
  "is_digit c = (48 \<le> (of_char c :: int) \<and> (of_char c :: int) \<le> 57)"

fun parse_uint :: "string \<Rightarrow> int \<Rightarrow> num_err + int" where
  "parse_uint [] n = Inr n"
| "parse_uint (c # cs) n =
     (if \<not> is_digit c then Inl ErrSyntax
      else if n \<ge> 18446744073709551615 div 10 + 1 then Inl ErrRange
      else (let n1 = n * 10 + (of_char c - 48)
            in if n1 > 18446744073709551615 then Inl ErrRange else parse_uint cs n1))"

definition Atoi :: "string \<Rightarrow> error + int" where
  "Atoi s =
     (if s = [] then Inl (NumError s ErrSyntax)
      else
        (let neg = (hd s = CHR ''-'');
             s1 = (if hd s = CHR ''+'' \<or> hd s = CHR ''-'' then tl s else s)
         in if s1 = [] then Inl (NumError s ErrSyntax)
            else (case parse_uint s1 0 of
                    Inl e \<Rightarrow> Inl (NumError s e)
                  | Inr un \<Rightarrow>
                      if \<not> neg \<and> un \<ge> 9223372036854775808 then Inl (NumError s ErrRange)
                      else if neg \<and> un > 9223372036854775808 then Inl (NumError s ErrRange)
                      else Inr (if neg then - un else un))))"

section \<open>The escape codec (ttk.go)\<close>

definition ANSIFg :: int where "ANSIFg = 30"
definition ANSIBg :: int where "ANSIBg = 40"

definition AttrNA :: int where "AttrNA = - 1"
definition AttrReset :: int where "AttrReset = 0"
definition AttrBold :: int where "AttrBold = 1"
definition AttrUnderline :: int where "AttrUnderline = 3"
definition AttrReverse :: int where "AttrReverse = 7"

definition ColorBlack :: int where "ColorBlack = 0"
definition ColorRed :: int where "ColorRed = 1"
definition ColorGreen :: int where "ColorGreen = 2"
definition ColorYellow :: int where "ColorYellow = 3"
definition ColorBlue :: int where "ColorBlue = 4"
definition ColorMagenta :: int where "ColorMagenta = 5"
definition ColorCyan :: int where "ColorCyan = 6"
definition ColorWhite :: int where "ColorWhite = 7"

lemmas ansi_consts =
  ANSIFg_def ANSIBg_def AttrNA_def AttrReset_def AttrBold_def AttrUnderline_def
  AttrReverse_def ColorBlack_def ColorRed_def ColorGreen_def ColorYellow_def
  ColorBlue_def ColorMagenta_def ColorCyan_def ColorWhite_def

text \<open>
  termbox's \<open>Attribute\<close> is a \<open>uint16\<close>; its attribute bits are
  \<open>AttrBold = 1 << 9\<close>, \<open>AttrUnderline = 1 << 10\<close>, \<open>AttrReverse = 1 << 11\<close>, and its
  colors are \<open>ColorDefault = 0\<close>, \<open>ColorBlack = 1\<close>, ..., \<open>ColorWhite = 8\<close>.
\<close>

type_synonym Attribute = "16 word"

definition termbox_AttrBold :: Attribute where "termbox_AttrBold = 0x0200"
definition termbox_AttrUnderline :: Attribute where "termbox_AttrUnderline = 0x0400"
definition termbox_AttrReverse :: Attribute where "termbox_AttrReverse = 0x0800"

record Attributes =
  Fg :: Attribute
  Bg :: Attribute

text \<open>\<open>Color\<close>: the three optional fields, each followed by \<open>;\<close>, the last \<open>;\<close> replaced by \<open>m\<close>.\<close>

definition Color :: "int \<Rightarrow> int \<Rightarrow> int \<Rightarrow> error + string" where
  "Color at fg bg =
     (if at = AttrNA \<and> fg = AttrNA \<and> bg = AttrNA then Inl ErrInvalidColor
      else if \<not> (at = AttrNA \<or> at = AttrBold \<or> at = AttrUnderline \<or> at = AttrReverse
                  \<or> at = AttrReset) then Inl ErrInvalidAttribute
      else if \<not> (fg = AttrNA \<or> (fg \<ge> ColorBlack \<and> fg \<le> ColorWhite))
           then Inl ErrInvalidForeground
      else if \<not> (bg = AttrNA \<or> (bg \<ge> ColorBlack \<and> bg \<le> ColorWhite))
           then Inl ErrInvalidBackground
      else
        (let a = (if at = AttrNA then [] else itoa at @ '';'');
             f = (if fg = AttrNA then [] else itoa (fg + ANSIFg) @ '';'');
             b = (if bg = AttrNA then [] else itoa (bg + ANSIBg) @ '';'');
             es = [ESC, CHR ''[''] @ a @ f @ b
         in (case substr es 0 (int (length es) - 1) of
               Inl e \<Rightarrow> Inl e
             | Inr es' \<Rightarrow> Inr (es' @ ''m''))))"

text \<open>
  One round of the loop of \<open>DecodeColor\<close> over the parameters: strip a trailing \<open>m\<close>,
  parse the number, and apply it to the attributes.  \<open>dfg\<close> and \<open>dbg\<close> are the package's
  default colors \<open>fg\<close> and \<open>bg\<close>, which the reset code copies.
\<close>

definition decode_field ::
  "Attribute \<Rightarrow> Attribute \<Rightarrow> string \<Rightarrow> Attributes \<times> bool \<Rightarrow> error + (Attributes \<times> bool)" where
  "decode_field dfg dbg v st =
     (case (if HasSuffix v ''m''
            then (case substr v 0 (int (length v) - 1) of
                    Inl e \<Rightarrow> Inl e
                  | Inr v' \<Rightarrow> Inr (v', True))
            else Inr (v, snd st)) of
        Inl e \<Rightarrow> Inl e
      | Inr (v', foundM) \<Rightarrow>
          (case Atoi v' of
             Inl e \<Rightarrow> Inl e
           | Inr n \<Rightarrow>
               (let a = fst st in
                if n = AttrReset then Inr (a\<lparr>Fg := dfg, Bg := dbg\<rparr>, foundM)
                else if n = AttrBold then Inr (a\<lparr>Fg := Fg a OR termbox_AttrBold\<rparr>, foundM)
                else if n = AttrUnderline
                  then Inr (a\<lparr>Fg := Fg a OR termbox_AttrUnderline\<rparr>, foundM)
                else if n = AttrReverse
                  then Inr (a\<lparr>Fg := Fg a OR termbox_AttrReverse\<rparr>, foundM)
                else if n \<ge> ColorBlack + ANSIFg \<and> n \<le> ColorWhite + ANSIFg
                  then Inr (a\<lparr>Fg := Fg a OR word_of_int (n - ANSIFg + 1)\<rparr>, foundM)
                else if n \<ge> ColorBlack + ANSIBg \<and> n \<le> ColorWhite + ANSIBg
                  then Inr (a\<lparr>Bg := Bg a OR word_of_int (n - ANSIBg + 1)\<rparr>, foundM)
                else Inl ErrNotEscSequence)))"

fun decode_fields ::
  "Attribute \<Rightarrow> Attribute \<Rightarrow> string list \<Rightarrow> Attributes \<times> bool \<Rightarrow> error + (Attributes \<times> bool)" where
  "decode_fields dfg dbg [] st = Inr st"
| "decode_fields dfg dbg (v # vs) st =
     (case decode_field dfg dbg v st of
        Inl e \<Rightarrow> Inl e
      | Inr st' \<Rightarrow> decode_fields dfg dbg vs st')"

text \<open>\<open>DecodeColor\<close> returns the attributes and \<open>skip\<close>, the offset of the byte after \<open>m\<close>.\<close>

definition DecodeColor :: "Attribute \<Rightarrow> Attribute \<Rightarrow> string \<Rightarrow> error + (Attributes \<times> int)" where
  "DecodeColor dfg dbg esc =
     (if length esc < 2 \<or> \<not> HasPrefix esc [ESC, CHR ''['']
      then Inl ErrNotEscSequence
      else
        (case substr esc 2 (int (length esc)) of
           Inl e \<Rightarrow> Inl e
         | Inr rest \<Rightarrow>
             (let i = Index rest ''m'' in
              if i = - 1 then Inl ErrNotEscSequence
              else
                (case substr esc 2 (i + 2 + 1) of
                   Inl e \<Rightarrow> Inl e
                 | Inr ps \<Rightarrow>
                     (case decode_fields dfg dbg (Split ps CHR '';'')
                             (\<lparr>Fg = 0, Bg = 0\<rparr>, False) of
                        Inl e \<Rightarrow> Inl e
                      | Inr (a, foundM) \<Rightarrow>
                          if foundM = False then Inl ErrNotEscSequence
                          else
                            (let skip = Index esc ''m'' in
                             if skip = - 1 then Inl ErrNotEscSequence
                             else Inr (a, skip + 1)))))))"

subsection \<open>UTF-8 (unicode/utf8)\<close>

text \<open>
  \<open>utf8.DecodeRuneInString\<close> returns the first rune of a string and its width in bytes;
  an empty string gives \<open>(RuneError, 0)\<close>, an invalid or truncated encoding
  \<open>(RuneError, 1)\<close>.  The masks and shifts of the library are written arithmetically:
  \<open>b & 0x1F\<close> is \<open>b mod 32\<close>, \<open>b & 0x3F\<close> is \<open>b mod 64\<close>, a shift by 6 a
  multiplication by 64, and the OR of the disjoint bit fields is their sum.
\<close>

definition RuneError :: rune where
  "RuneError = 0xFFFD"

fun DecodeRuneInString :: "string \<Rightarrow> rune \<times> int" where
  "DecodeRuneInString [] = (RuneError, 0)"
| "DecodeRuneInString (c0 # cs) =
     (let s0 = (of_char c0 :: int) in
      if s0 < 0x80 then (s0, 1)
      else if s0 < 0xC2 \<or> 0xF4 < s0 then (RuneError, 1)
      else
        (let sz = (if s0 < 0xE0 then 2 else if s0 < 0xF0 then 3 else 4 :: nat);
             lo = (if s0 = 0xE0 then 0xA0 else if s0 = 0xF0 then 0x90 else 0x80 :: int);
             hi = (if s0 = 0xED then 0x9F else if s0 = 0xF4 then 0x8F else 0xBF :: int)
         in if length (c0 # cs) < sz then (RuneError, 1)
            else
              (let s1 = (of_char (cs ! 0) :: int) in
               if s1 < lo \<or> hi < s1 then (RuneError, 1)
               else if sz \<le> 2 then ((s0 mod 32) * 64 + s1 mod 64, 2)
               else
                 (let s2 = (of_char (cs ! 1) :: int) in
                  if s2 < 0x80 \<or> 0xBF < s2 then (RuneError, 1)
                  else if sz \<le> 3
                    then ((s0 mod 16) * 4096 + (s1 mod 64) * 64 + s2 mod 64, 3)
                  else
                    (let s3 = (of_char (cs ! 2) :: int) in
                     if s3 < 0x80 \<or> 0xBF < s3 then (RuneError, 1)
                     else ((s0 mod 8) * 262144 + (s1 mod 64) * 4096
                             + (s2 mod 64) * 64 + s3 mod 64, 4))))))"

text \<open>
  \<open>string(r)\<close> for a rune \<open>r\<close>: its UTF-8 encoding, that of \<open>RuneError\<close> when \<open>r\<close> is
  no valid code point.
\<close>

definition EncodeRune :: "rune \<Rightarrow> string" where
  "EncodeRune r0 =
     (let r = (if r0 < 0 \<or> 0x10FFFF < r0 \<or> (0xD800 \<le> r0 \<and> r0 \<le> 0xDFFF)
               then RuneError else r0)
      in if r < 0x80 then [char_of r]
         else if r < 0x800 then [char_of (0xC0 + r div 64), char_of (0x80 + r mod 64)]
         else if r < 0x10000
           then [char_of (0xE0 + r div 4096), char_of (0x80 + r div 64 mod 64),
                 char_of (0x80 + r mod 64)]
         else [char_of (0xF0 + r div 262144), char_of (0x80 + r div 4096 mod 64),
               char_of (0x80 + r div 64 mod 64), char_of (0x80 + r mod 64)])"

text \<open>\<open>[]rune(s)\<close> and \<open>string(rs)\<close>.\<close>

function runes_of :: "string \<Rightarrow> rune list" where
  "runes_of s =
     (if s = [] then []
      else (case DecodeRuneInString s of
              (v, width) \<Rightarrow> v # runes_of (drop (nat width) s)))"
  by pat_completeness auto
termination
proof (relation "measure length")
  fix s :: string and v :: rune and width :: int
  assume "s \<noteq> []" and "(v, width) = DecodeRuneInString s"
  then have "0 < width"
    by (cases s) (auto simp: Let_def split: if_splits)
  with \<open>s \<noteq> []\<close> show "(drop (nat width) s, s) \<in> measure length"
    by simp
qed simp

declare runes_of.simps [simp del]

definition string_of_runes :: "rune list \<Rightarrow> string" where
  "string_of_runes rs = concat (map EncodeRune rs)"

subsection \<open>Unescape\<close>

lemma Index_ge_minus_one: "- 1 \<le> Index t sub"
  by (induction t) (auto simp: Let_def)

lemma DecodeColor_skip_pos: "DecodeColor dfg dbg esc = Inr (a, skip) \<Longrightarrow> 0 < skip"
  using Index_ge_minus_one [of esc "''m''"]
  by (auto simp: DecodeColor_def Let_def split: if_splits sum.splits prod.splits)

lemma DecodeRuneInString_width_pos:
  "s \<noteq> [] \<Longrightarrow> DecodeRuneInString s = (v, width) \<Longrightarrow> 0 < width"
  by (cases s) (auto simp: Let_def split: if_splits)

lemma drop_skip_shorter:
  "DecodeColor dfg dbg esc = Inr (a, skip) \<Longrightarrow> length esc - nat skip < length esc"
  by (frule DecodeColor_skip_pos) (auto simp: DecodeColor_def split: if_splits)

lemma drop_width_shorter:
  "s \<noteq> [] \<Longrightarrow> (v, width) = DecodeRuneInString s \<Longrightarrow> length s - nat width < length s"
  using DecodeRuneInString_width_pos [of s v width] by simp




section \<open>Windows and widgets: the data (ttk.go, widget.go, window.go, label.go, edit.go, list.go)\<close>

text \<open>
  A call either returns or panics; in both cases it leaves a state behind.  Operations
  that mutate return the state they leave together with an \<open>outcome\<close>.
\<close>

datatype 'a outcome = Returned 'a | Panicked

text \<open>\<open>termbox.Cell\<close> with the \<open>dirty\<close> bit of ttk.\<close>

record Cell =
  Ch :: rune
  CellFg :: Attribute
  CellBg :: Attribute
  dirty :: bool

datatype Visibility = VisibilityGet | VisibilityHide | VisibilityShow

datatype Justify = JustifyLeft | JustifyRight | JustifyCenter

text \<open>
  The widgets.  The fields \<open>x\<close> and \<open>y\<close> of the embedded \<open>Widget\<close> carry the prefix of
  the widget; its back-reference \<open>w\<close> to the window is not a field here: the operations
  of a widget take the window as an argument.  \<open>e_target\<close> is the pointer \<open>target\<close>, an
  address in a heap of strings, or \<open>None\<close> for \<open>nil\<close>.  \<open>l_content_cap\<close> is
  \<open>cap(l.content)\<close>, which bounds the slice expression in \<open>Display\<close>.
\<close>

record Label =
  lb_x :: int
  lb_y :: int
  lb_trueX :: int
  lb_trueY :: int
  lb_text :: string
  lb_attr :: Attributes
  lb_status :: bool
  lb_justify :: Justify
  lb_visibility :: Visibility

record Edit =
  e_x :: int
  e_y :: int
  e_trueX :: int
  e_trueY :: int
  e_trueW :: int
  e_target :: "nat option"
  e_display :: "rune list"
  e_at :: int
  e_width :: int
  e_cx :: int
  e_cy :: int
  e_prevX :: int
  e_prevY :: int
  e_visibility :: Visibility
  e_attr :: Attributes

record List =
  l_x :: int
  l_y :: int
  l_width :: int
  l_height :: int
  l_trueW :: int
  l_trueH :: int
  l_trueX :: int
  l_trueY :: int
  l_at :: int
  l_paging :: bool
  l_attr :: Attributes
  l_content :: "string list"
  l_content_cap :: int
  l_visibility :: Visibility

datatype Widgeter = LabelWidget Label | EditWidget Edit | ListWidget List

text \<open>
  The window: \<open>w_x\<close> and \<open>w_y\<close> are its fields \<open>x\<close> and \<open>y\<close> (the width and the
  height), \<open>w_focus\<close> its field \<open>focus\<close>.  The identifier and the \<open>Windower\<close> callbacks
  play no part in what follows.
\<close>

record Window =
  w_x :: int
  w_y :: int
  backingStore :: "Cell list"
  widgets :: "Widgeter list"
  w_focus :: int

type_synonym heap = "nat \<Rightarrow> string"

section \<open>Printing into the backing store (window.go)\<close>

text \<open>\<open>setCell\<close>; \<open>None\<close> is the panic of an index out of range.\<close>

definition setCell :: "Window \<Rightarrow> int \<Rightarrow> int \<Rightarrow> Cell \<Rightarrow> Window option" where
  "setCell w x y c =
     (let idx = x + (y * w_x w) in
      if 0 \<le> idx \<and> idx < int (length (backingStore w))
      then Some (w\<lparr>backingStore := (backingStore w)[nat idx := c\<lparr>dirty := True\<rparr>]\<rparr>)
      else None)"

text \<open>
  The loop of \<open>printf\<close> on the rest \<open>out[i:]\<close> of the formatted text, with the column
  count \<open>xx\<close> and the cell \<open>c\<close> that carries the active attributes.  \<open>g\<close> holds the
  package's default colors, which \<open>DecodeColor\<close> reads.
\<close>

function printf_loop ::
  "Attributes \<Rightarrow> int \<Rightarrow> int \<Rightarrow> int \<Rightarrow> string \<Rightarrow> int \<Rightarrow> Cell \<Rightarrow> Window \<Rightarrow> Window \<times> unit outcome" where
  "printf_loop g x y mx rest xx c w =
     (if rest = [] then (w, Returned ())
      else if x + xx + 1 > mx then (w, Returned ())
      else
        (case DecodeRuneInString rest of
           (v, width) \<Rightarrow>
             (case (if v = 0x1B then DecodeColor (Fg g) (Bg g) rest
                    else Inl ErrNotEscSequence) of
                Inr (cc, skip) \<Rightarrow>
                  printf_loop g x y mx (drop (nat skip) rest) xx
                    (c\<lparr>CellFg := Fg cc, CellBg := Bg cc\<rparr>) w
              | Inl e \<Rightarrow>
                  if e = RuntimePanic then (w, Panicked)
                  else
                    (case setCell w (x + xx) y (c\<lparr>Ch := v\<rparr>) of
                       None \<Rightarrow> (w, Panicked)
                     | Some w' \<Rightarrow>
                         printf_loop g x y mx (drop (nat width) rest) (xx + 1)
                           (c\<lparr>Ch := v\<rparr>) w'))))"
  by pat_completeness auto
termination
  by (relation "measure (\<lambda>(g, x, y, mx, rest, xx, c, w). length rest)")
     (auto split: if_splits intro: drop_skip_shorter drop_width_shorter)

declare printf_loop.simps [simp del]

text \<open>
  \<open>printf\<close>, on the text \<open>out\<close> that \<open>fmt.Sprintf\<close> has formatted.
\<close>

definition printf :: "Attributes \<Rightarrow> Window \<Rightarrow> int \<Rightarrow> int \<Rightarrow> Attributes \<Rightarrow> string \<Rightarrow> Window \<times> unit outcome" where
  "printf g w x y a out =
     printf_loop g x y (w_x w - x) out 0
       \<lparr>Ch = 0, CellFg = Fg a, CellBg = Bg a, dirty = False\<rparr> w"

section \<open>The Edit widget (edit.go)\<close>

text \<open>
  Slice expressions on the display buffer; \<open>None\<close> is the panic of a bound out of range.
  Go checks the upper bound of a slice expression on a slice against the capacity; in
  \<open>KeyHandler\<close>, \<open>insert\<close> and \<open>Render\<close> a bound beyond the length either cannot occur
  or makes another operand of the same statement panic, so the length is used here.
\<close>

definition slice :: "'a list \<Rightarrow> int \<Rightarrow> int \<Rightarrow> 'a list option" where
  "slice xs lo hi =
     (if 0 \<le> lo \<and> lo \<le> hi \<and> hi \<le> int (length xs)
      then Some (take (nat (hi - lo)) (drop (nat lo) xs))
      else None)"

definition slice_from :: "'a list \<Rightarrow> int \<Rightarrow> 'a list option" where
  "slice_from xs lo = slice xs lo (int (length xs))"

definition slice_to :: "'a list \<Rightarrow> int \<Rightarrow> 'a list option" where
  "slice_to xs hi = slice xs 0 hi"

text \<open>\<open>strings.Repeat\<close> of a one-byte string; it panics on a negative count.\<close>

definition Repeat :: "char \<Rightarrow> int \<Rightarrow> string option" where
  "Repeat c n = (if n < 0 then None else Some (replicate (nat n) c))"

text \<open>The keys of termbox that edit.go names, and the event fields it reads.\<close>

definition KeyCtrlA :: int where "KeyCtrlA = 0x01"
definition KeyCtrlE :: int where "KeyCtrlE = 0x05"
definition KeyBackspace :: int where "KeyBackspace = 0x08"
definition KeyEnter :: int where "KeyEnter = 0x0D"
definition KeyCtrlU :: int where "KeyCtrlU = 0x15"
definition KeySpace :: int where "KeySpace = 0x20"
definition KeyBackspace2 :: int where "KeyBackspace2 = 0x7F"
definition KeyDelete :: int where "KeyDelete = 0xFFFF - 13"
definition KeyHome :: int where "KeyHome = 0xFFFF - 14"
definition KeyEnd :: int where "KeyEnd = 0xFFFF - 15"
definition KeyArrowLeft :: int where "KeyArrowLeft = 0xFFFF - 20"
definition KeyArrowRight :: int where "KeyArrowRight = 0xFFFF - 21"

lemmas key_consts =
  KeyCtrlA_def KeyCtrlE_def KeyBackspace_def KeyEnter_def KeyCtrlU_def KeySpace_def
  KeyBackspace2_def KeyDelete_def KeyHome_def KeyEnd_def KeyArrowLeft_def KeyArrowRight_def

record Event =
  ev_Mod :: int
  ev_Key :: int
  ev_Ch :: rune

text \<open>
  \<open>clear\<close> and \<open>Render\<close> write into the window; \<open>g\<close> is \<open>defaultAttributes()\<close>.
  \<open>setCursor\<close> acts on the terminal only and is left out throughout.
\<close>

definition Edit_clear :: "Attributes \<Rightarrow> Edit \<Rightarrow> Window \<Rightarrow> Window \<times> unit outcome" where
  "Edit_clear g e w =
     (case Repeat CHR '' '' (e_trueW e) of
        None \<Rightarrow> (w, Panicked)
      | Some s \<Rightarrow> printf g w (e_trueX e) (e_trueY e) g s)"

definition Edit_Render :: "Attributes \<Rightarrow> Edit \<Rightarrow> Window \<Rightarrow> Window \<times> unit outcome" where
  "Edit_Render g e w =
     (if e_visibility e = VisibilityHide then Edit_clear g e w
      else
        (case slice_from (e_display e) (e_at e) of
           None \<Rightarrow> (w, Panicked)
         | Some l \<Rightarrow>
             if int (length l) > e_trueW e
             then (case slice (e_display e) (e_at e) (e_at e + e_trueW e) of
                     None \<Rightarrow> (w, Panicked)
                   | Some l' \<Rightarrow>
                       printf g w (e_trueX e) (e_trueY e) (e_attr e) (string_of_runes l' @ []))
             else (case Repeat CHR '' '' (e_trueW e - int (length l)) of
                     None \<Rightarrow> (w, Panicked)
                   | Some filler \<Rightarrow>
                       printf g w (e_trueX e) (e_trueY e) (e_attr e)
                         (string_of_runes l @ filler))))"

text \<open>
  \<open>insert\<close>: append the value, copy the upper part one place up, store the value.
\<close>

definition insert_rune :: "rune list \<Rightarrow> int \<Rightarrow> rune \<Rightarrow> rune list option" where
  "insert_rune slice0 index v =
     (let s1 = slice0 @ [v] in
      case slice_from s1 (index + 1) of
        None \<Rightarrow> None
      | Some dst \<Rightarrow>
          (case slice_from s1 index of
             None \<Rightarrow> None
           | Some src \<Rightarrow>
               (let n = min (length dst) (length src);
                    s2 = take (nat (index + 1)) s1 @ take n src @ drop n dst
                in if 0 \<le> index \<and> index < int (length s2)
                   then Some (s2[nat index := v])
                   else None)))"

text \<open>
  The state that the operations of an Edit act on: the widget, its window and the heap
  that holds the target string.  \<open>Render_return\<close> is the common end of the branches of
  \<open>KeyHandler\<close> that render and return.
\<close>

type_synonym edit_state = "Edit \<times> Window \<times> heap"

definition Render_return ::
  "Attributes \<Rightarrow> Edit \<Rightarrow> Window \<Rightarrow> heap \<Rightarrow> bool \<Rightarrow> edit_state \<times> bool outcome" where
  "Render_return g e w h r =
     (case Edit_Render g e w of
        (w', Returned u) \<Rightarrow> ((e, w', h), Returned r)
      | (w', Panicked) \<Rightarrow> ((e, w', h), Panicked))"

text \<open>The part of \<open>KeyHandler\<close> after the switch: a normal rune is stored and displayed.\<close>

definition KeyHandler_rune ::
  "Attributes \<Rightarrow> Event \<Rightarrow> edit_state \<Rightarrow> edit_state \<times> bool outcome" where
  "KeyHandler_rune g ev s =
     (case s of (e, w, h) \<Rightarrow>
        if ev_Ch ev \<noteq> 0 \<and> ev_Mod ev \<noteq> 0 \<and> ev_Key ev = 0 then (s, Returned False)
        else if ev_Ch ev = 0 then (s, Returned False)
        else
          (let inString = e_cx e - e_trueX e + e_at e in
           case insert_rune (e_display e) inString (ev_Ch ev) of
             None \<Rightarrow> (s, Panicked)
           | Some d \<Rightarrow>
               (let e1 = e\<lparr>e_display := d\<rparr>;
                    e2 = (if e_cx e1 < e_trueW e1 + e_trueX e1 - 1
                          then e1\<lparr>e_cx := e_cx e1 + 1\<rparr>
                          else e1\<lparr>e_at := e_at e1 + 1\<rparr>)
                in Render_return g e2 w h True)))"

definition KeyHandler ::
  "Attributes \<Rightarrow> Event \<Rightarrow> edit_state \<Rightarrow> edit_state \<times> bool outcome" where
  "KeyHandler g ev s =
     (case s of (e, w, h) \<Rightarrow>
        if ev_Key ev = KeyCtrlA \<or> ev_Key ev = KeyHome then
          Render_return g (e\<lparr>e_cx := e_trueX e, e_at := 0\<rparr>) w h True
        else if ev_Key ev = KeyCtrlE \<or> ev_Key ev = KeyEnd then
          (if int (length (e_display e)) < e_trueW e - 1
           then ((e\<lparr>e_cx := e_trueX e + int (length (e_display e)) - e_at e\<rparr>, w, h),
                 Returned True)
           else Render_return g
                  (e\<lparr>e_cx := e_trueX e + e_trueW e - 1,
                     e_at := int (length (e_display e)) - e_trueW e + 1\<rparr>) w h True)
        else if ev_Key ev = KeyCtrlU then
          Render_return g (e\<lparr>e_cx := e_trueX e, e_at := 0, e_display := []\<rparr>) w h True
        else if ev_Key ev = KeyArrowRight then
          (case slice_from (e_display e) (e_at e) of
             None \<Rightarrow> (s, Panicked)
           | Some l \<Rightarrow>
               if e_cx e - e_trueX e = int (length l) then (s, Returned True)
               else
                 (let e1 = e\<lparr>e_cx := e_cx e + 1\<rparr> in
                  if e_cx e1 > e_trueW e1 + e_trueX e1 - 1
                  then
                    (let e2 = e1\<lparr>e_cx := e_trueW e1 + e_trueX e1 - 1\<rparr> in
                     if length l = 0 then ((e2, w, h), Returned True)
                     else Render_return g (e2\<lparr>e_at := e_at e2 + 1\<rparr>) w h True)
                  else ((e1, w, h), Returned True)))
        else if ev_Key ev = KeyArrowLeft then
          (let e1 = e\<lparr>e_cx := e_cx e - 1\<rparr> in
           if e_cx e1 < e_trueX e1
           then
             (let e2 = e1\<lparr>e_cx := e_trueX e1, e_at := e_at e1 - 1\<rparr>;
                  e3 = (if e_at e2 < 0 then e2\<lparr>e_at := 0\<rparr> else e2)
              in Render_return g e3 w h True)
           else ((e1, w, h), Returned True))
        else if ev_Key ev = KeyDelete then
          (let inString = e_cx e - e_trueX e + e_at e in
           if int (length (e_display e)) = inString then (s, Returned True)
           else
             (case (slice_to (e_display e) inString, slice_from (e_display e) (inString + 1)) of
                (Some a, Some b) \<Rightarrow> Render_return g (e\<lparr>e_display := a @ b\<rparr>) w h True
              | _ \<Rightarrow> (s, Panicked)))
        else if ev_Key ev = KeyBackspace \<or> ev_Key ev = KeyBackspace2 then
          (let inString = e_cx e - e_trueX e + e_at e in
           if inString \<le> 0 then (s, Returned True)
           else
             (case (slice_to (e_display e) (inString - 1), slice_from (e_display e) inString) of
                (Some a, Some b) \<Rightarrow>
                  (let e1 = e\<lparr>e_display := a @ b\<rparr>;
                       e4 =
                         (if e_cx e1 = e_trueX e1 + 1
                          then
                            (let e2 = (if e_at e1 > e_trueW e1 - 1
                                       then e1\<lparr>e_cx := e_trueW e1 - 1\<rparr>
                                       else e1\<lparr>e_cx := e_at e1 + e_trueX e1\<rparr>)
                             in if e_at e2 \<ge> e_cx e2
                                then e2\<lparr>e_at := e_at e2 - e_cx e2\<rparr>
                                else e2)
                          else e1\<lparr>e_cx := e_cx e1 - 1\<rparr>)
                   in Render_return g e4 w h True)
              | _ \<Rightarrow> (s, Panicked)))
        else if ev_Key ev = KeySpace then
          KeyHandler_rune g (ev\<lparr>ev_Ch := 0x20\<rparr>) s
        else if ev_Key ev = KeyEnter then
          (case e_target e of
             None \<Rightarrow> (s, Panicked)
           | Some p \<Rightarrow> ((e, w, h(p := string_of_runes (e_display e))), Returned False))
        else KeyHandler_rune g ev s)"

definition Edit_Focus :: "Edit \<Rightarrow> Edit" where
  "Edit_Focus e =
     (if e_cx e = - 1 \<or> e_cy e = - 1
      then e\<lparr>e_cx := e_trueX e, e_cy := e_trueY e, e_at := 0\<rparr>
      else e)"

text \<open>
  \<open>SetText\<close> binds the target to the pointer \<open>s\<close> and reads the string it points to
  (a panic when \<open>s\<close> is \<open>nil\<close>), then sends itself a synthesized key.
\<close>

definition SetText ::
  "Attributes \<Rightarrow> nat option \<Rightarrow> bool \<Rightarrow> edit_state \<Rightarrow> edit_state \<times> unit outcome" where
  "SetText g s end st =
     (case st of (e, w, h) \<Rightarrow>
        (case s of
           None \<Rightarrow> ((e\<lparr>e_target := None\<rparr>, w, h), Panicked)
         | Some p \<Rightarrow>
             (let e1 = e\<lparr>e_target := Some p, e_display := runes_of (h p), e_at := 0\<rparr>;
                  ev = \<lparr>ev_Mod = 0, ev_Key = (if end then KeyCtrlE else KeyCtrlA), ev_Ch = 0\<rparr>
              in case KeyHandler g ev (e1, w, h) of
                   (st', Returned b) \<Rightarrow> (st', Returned ())
                 | (st', Panicked) \<Rightarrow> (st', Panicked))))"

definition Edit_Resize :: "Edit \<Rightarrow> Window \<Rightarrow> Edit" where
  "Edit_Resize e w =
     (let inString = e_cx e - e_trueX e + e_at e;
          e1 = e\<lparr>e_trueX := e_x e, e_trueY := e_y e, e_trueW := e_width e\<rparr>;
          e2 = (if e_y e1 < 0 then e1\<lparr>e_trueY := w_y w + e_y e1 + 1\<rparr> else e1);
          e3 = (if e_width e2 < 1 then e2\<lparr>e_trueW := w_x w - e_x e2 + e_width e2\<rparr> else e2);
          e4 = (if w_y w \<noteq> e_prevY e3 then e3\<lparr>e_cy := e_trueY e3, e_prevY := w_y w\<rparr> else e3)
      in if w_x w \<noteq> e_prevX e4
         then
           (let e5 =
              (if int (length (e_display e4)) = inString
               then (if int (length (e_display e4)) < e_trueW e4 - 1
                     then e4\<lparr>e_cx := e_trueX e4 + int (length (e_display e4)), e_at := 0\<rparr>
                     else e4\<lparr>e_cx := e_trueX e4 + e_trueW e4 - 1,
                             e_at := int (length (e_display e4)) - e_trueW e4 + 1\<rparr>)
               else if inString \<le> 0 then e4\<lparr>e_at := 0, e_cx := e_trueX e4\<rparr>
               else if e_prevX e4 \<le> w_x w then e4
               else if e_cx e4 \<ge> w_x w
                 then e4\<lparr>e_cx := e_cx e4 - (e_prevX e4 - w_x w),
                         e_at := e_at e4 + (e_prevX e4 - w_x w)\<rparr>
               else e4)
            in e5\<lparr>e_prevX := w_x w\<rparr>)
         else e4)"

text \<open>
  \<open>NewEdit\<close> gives an Edit whose fields are zero but for the anchor; \<open>AddEdit\<close> appends
  it to the widgets of the window and initialises it.  The window holds a pointer to the
  widget, so the entry of \<open>widgets\<close> is the widget as \<open>AddEdit\<close> leaves it.
\<close>

definition NewEdit :: "int \<Rightarrow> int \<Rightarrow> Edit" where
  "NewEdit x y =
     \<lparr>e_x = x, e_y = y, e_trueX = 0, e_trueY = 0, e_trueW = 0, e_target = None,
      e_display = [], e_at = 0, e_width = 0, e_cx = 0, e_cy = 0, e_prevX = 0, e_prevY = 0,
      e_visibility = VisibilityGet, e_attr = \<lparr>Fg = 0, Bg = 0\<rparr>\<rparr>"

definition AddEdit ::
  "Attributes \<Rightarrow> int \<Rightarrow> int \<Rightarrow> int \<Rightarrow> nat option \<Rightarrow> Window \<Rightarrow> heap \<Rightarrow> edit_state \<times> unit outcome" where
  "AddEdit g x y width target w h =
     (let e0 = NewEdit x y;
          e1 = e0\<lparr>e_width := width, e_prevX := w_x w, e_prevY := w_y w\<rparr>;
          e2 = Edit_Resize e1 w;
          e3 = e2\<lparr>e_cx := - 1, e_cy := - 1\<rparr>
      in case SetText g target True (e3, w, h) of
           ((e4, w4, h4), Returned u) \<Rightarrow>
             (let e5 = e4\<lparr>e_attr := \<lparr>Fg = Bg g, Bg = Fg g\<rparr>\<rparr>
              in ((e5, w4\<lparr>widgets := widgets w4 @ [EditWidget e5]\<rparr>, h4), Returned ()))
         | ((e4, w4, h4), Panicked) \<Rightarrow>
             ((e4, w4\<lparr>widgets := widgets w4 @ [EditWidget e4]\<rparr>, h4), Panicked))"

section \<open>The List widget (list.go)\<close>

text \<open>
  \<open>Location\<close> is an integer type with five named values; \<open>OtherLocation\<close> stands for
  any other value, on which \<open>Display\<close> returns at once.
\<close>

datatype Location = Top | Bottom | Up | Down | Current | OtherLocation

lemma wrap_step_skip:
  "i < length s \<Longrightarrow> DecodeColor dfg dbg (drop i s) = Inr (a, skip)
    \<Longrightarrow> length s - (i + nat skip) < length s - i"
  by (drule DecodeColor_skip_pos) simp

lemma wrap_step_width:
  "i < length s \<Longrightarrow> (r, width) = DecodeRuneInString (drop i s)
    \<Longrightarrow> length s - (i + nat width) < length s - i"
  using DecodeRuneInString_width_pos [of "drop i s" r width] by simp

text \<open>
  The inner loop of \<open>Display\<close> over one line \<open>s\<close>: \<open>i\<close> is the position in the line,
  and the result holds \<open>printWidth\<close>, \<open>leftover\<close>, \<open>cc\<close> and the buffer when the loop
  ends.  The slice expressions of the loop stay within the line.  \<open>None\<close> is a panic.
\<close>

function wrap_loop ::
  "Attributes \<Rightarrow> int \<Rightarrow> string \<Rightarrow> nat \<Rightarrow> int \<Rightarrow> nat \<Rightarrow> string \<Rightarrow> string \<Rightarrow> string
    \<Rightarrow> rune list list \<Rightarrow> (int \<times> string \<times> string \<times> rune list list) option" where
  "wrap_loop g trueW s i printWidth start lastColor leftover cc buffer =
     (if \<not> i < length s then Some (printWidth, leftover, cc, buffer)
      else
        (case DecodeRuneInString (drop i s) of
           (r, width) \<Rightarrow>
             (case (if r = 0x1B then DecodeColor (Fg g) (Bg g) (drop i s)
                    else Inl ErrNotEscSequence) of
                Inr (a, skip) \<Rightarrow>
                  wrap_loop g trueW s (i + nat skip) printWidth start
                    (take (nat skip) (drop i s))
                    (take (i + nat skip - start) (drop start s)) cc buffer
              | Inl e \<Rightarrow>
                  if e = RuntimePanic then None
                  else if printWidth + 1 > trueW - 1
                  then
                    (let buffer' =
                       buffer @ [runes_of (lastColor
                                   @ take (i + nat width - start) (drop start s))]
                     in if i + nat width = length s
                        then Some (0, [], lastColor, buffer')
                        else wrap_loop g trueW s (i + nat width) 0 (i + nat width)
                               lastColor leftover lastColor buffer')
                  else if i + nat width < length s
                  then wrap_loop g trueW s (i + nat width) (printWidth + 1) start
                         lastColor leftover cc buffer
                  else Some (printWidth + 1,
                             take (i + nat width - start) (drop start s), cc, buffer))))"
  by pat_completeness auto
termination
  by (relation "measure (\<lambda>(g, trueW, s, i, rest). length s - i)")
     (auto split: if_splits intro: wrap_step_skip wrap_step_width)

declare wrap_loop.simps [simp del]

text \<open>The loop over the lines, which appends the leftover of each line with its filler.\<close>

fun wrap_lines ::
  "Attributes \<Rightarrow> int \<Rightarrow> string list \<Rightarrow> rune list list \<Rightarrow> rune list list option" where
  "wrap_lines g trueW [] buffer = Some buffer"
| "wrap_lines g trueW (s # ss) buffer =
     (case wrap_loop g trueW s 0 0 0 [] [] [] buffer of
        None \<Rightarrow> None
      | Some (printWidth, leftover, cc, buffer') \<Rightarrow>
          if leftover \<noteq> []
          then (case Repeat CHR '' '' (trueW - printWidth) of
                  None \<Rightarrow> None
                | Some filler \<Rightarrow>
                    wrap_lines g trueW ss (buffer' @ [runes_of (cc @ leftover @ filler)]))
          else wrap_lines g trueW ss buffer')"

text \<open>
  \<open>c[l.at : l.at+l.trueH]\<close>: the upper bound is checked against the capacity, and the
  elements between the length and the capacity are empty strings.
\<close>

definition content_slice :: "List \<Rightarrow> string list option" where
  "content_slice l =
     (let lo = l_at l; hi = l_at l + l_trueH l in
      if 0 \<le> lo \<and> lo \<le> hi \<and> hi \<le> l_content_cap l
      then Some (map (\<lambda>k. if k < length (l_content l) then l_content l ! k else [])
                   [nat lo ..< nat hi])
      else None)"

fun print_rows ::
  "Attributes \<Rightarrow> List \<Rightarrow> int \<Rightarrow> rune list list \<Rightarrow> Window \<Rightarrow> Window \<times> unit outcome" where
  "print_rows g l i [] w = (w, Returned ())"
| "print_rows g l i (v # vs) w =
     (case printf g w 0 (l_trueY l + i) (l_attr l) (string_of_runes v) of
        (w', Returned u) \<Rightarrow> print_rows g l (i + 1) vs w'
      | (w', Panicked) \<Rightarrow> (w', Panicked))"

text \<open>The part of \<open>Display\<close> after the switch.\<close>

definition Display_render :: "Attributes \<Rightarrow> List \<Rightarrow> Window \<Rightarrow> (List \<times> Window) \<times> unit outcome" where
  "Display_render g l w =
     (case content_slice l of
        None \<Rightarrow> ((l, w), Panicked)
      | Some c \<Rightarrow>
          (case wrap_lines g (l_trueW l) c [] of
             None \<Rightarrow> ((l, w), Panicked)
           | Some buffer \<Rightarrow>
               (case (if int (length buffer) > l_trueH l
                      then slice_from buffer (int (length buffer) - l_trueH l)
                      else Some buffer) of
                  None \<Rightarrow> ((l, w), Panicked)
                | Some rows \<Rightarrow>
                    (case print_rows g l 0 rows w of
                       (w', out) \<Rightarrow> ((l, w'), out)))))"

definition Display_Bottom :: "List \<Rightarrow> List" where
  "Display_Bottom l =
     (let l1 = l\<lparr>l_at := int (length (l_content l)) - l_trueH l\<rparr>;
          l2 = (if l_at l1 < 0 then l1\<lparr>l_at := 0\<rparr> else l1)
      in l2\<lparr>l_paging := False\<rparr>)"

text \<open>
  \<open>Display\<close>.  In the branch \<open>Down\<close> the call \<open>l.Display(Bottom)\<close> finds the same
  content and visibility, so it passes the guard again and takes the branch \<open>Bottom\<close>.
\<close>

definition Display ::
  "Attributes \<Rightarrow> Location \<Rightarrow> List \<times> Window \<Rightarrow> (List \<times> Window) \<times> unit outcome" where
  "Display g where' s =
     (case s of (l, w) \<Rightarrow>
        if length (l_content l) = 0 \<or> l_visibility l = VisibilityHide
        then (s, Returned ())
        else
          (case where' of
             Current \<Rightarrow> Display_render g l w
           | Top \<Rightarrow>
               Display_render g
                 (if int (length (l_content l)) > l_trueH l
                  then l\<lparr>l_at := 0, l_paging := True\<rparr> else l) w
           | Bottom \<Rightarrow> Display_render g (Display_Bottom l) w
           | Up \<Rightarrow>
               (let l1 = l\<lparr>l_at := l_at l - l_trueH l + 1\<rparr>;
                    l2 = (if l_at l1 < 0 then l1\<lparr>l_at := 0\<rparr> else l1)
                in Display_render g (l2\<lparr>l_paging := True\<rparr>) w)
           | Down \<Rightarrow>
               (let y = l_at l + l_trueH l - 1 in
                if y + l_trueH l > int (length (l_content l))
                then Display_render g (Display_Bottom l) w
                else Display_render g (l\<lparr>l_at := y, l_paging := True\<rparr>) w)
           | OtherLocation \<Rightarrow> (s, Returned ())))"

definition IsPaging :: "List \<Rightarrow> bool" where
  "IsPaging l = l_paging l"

section \<open>Focus within a window (window.go)\<close>









section \<open>Specification-side definitions\<close>

text \<open>
  The attributes that a direct construction from \<open>(at, fg, bg)\<close> gives: the bold,
  underline or reverse bit in the foreground, each color index offset by one for termbox,
  and the default colors where the attribute is the reset code.
\<close>

definition attribute_bits :: "int \<Rightarrow> Attribute" where
  "attribute_bits at =
     (if at = AttrBold then termbox_AttrBold
      else if at = AttrUnderline then termbox_AttrUnderline
      else if at = AttrReverse then termbox_AttrReverse
      else 0)"

definition color_bits :: "int \<Rightarrow> Attribute" where
  "color_bits c = (if c = AttrNA then 0 else word_of_int (c + 1))"

definition construct_attributes ::
  "Attribute \<Rightarrow> Attribute \<Rightarrow> int \<Rightarrow> int \<Rightarrow> int \<Rightarrow> Attributes" where
  "construct_attributes dfg dbg at fg bg =
     \<lparr>Fg = (if at = AttrReset then dfg else attribute_bits at) OR color_bits fg,
      Bg = (if at = AttrReset then dbg else 0) OR color_bits bg\<rparr>"

definition valid_attribute :: "int \<Rightarrow> bool" where
  "valid_attribute at =
     (at = AttrNA \<or> at = AttrReset \<or> at = AttrBold \<or> at = AttrUnderline \<or> at = AttrReverse)"

definition valid_color :: "int \<Rightarrow> bool" where
  "valid_color c = (c = AttrNA \<or> (ColorBlack \<le> c \<and> c \<le> ColorWhite))"

text \<open>Auxiliary: fields joined by semicolons, and the fields that \<open>Color\<close> writes.\<close>

fun join_fields :: "string list \<Rightarrow> string" where
  "join_fields [] = []"
| "join_fields [x] = x"
| "join_fields (x # y # ys) = x @ CHR '';'' # join_fields (y # ys)"

definition color_fields :: "int \<Rightarrow> int \<Rightarrow> int \<Rightarrow> string list" where
  "color_fields at fg bg =
     (if at = AttrNA then [] else [itoa at]) @
     (if fg = AttrNA then [] else [itoa (fg + ANSIFg)]) @
     (if bg = AttrNA then [] else [itoa (bg + ANSIBg)])"

text \<open>
  The fields of an escape sequence (the bytes between the marker and the first \<open>m\<close>, split
  at the semicolons), the codes that \<open>DecodeColor\<close> recognises, and the error that a field
  gives which is no recognised code.
\<close>

definition escape_fields :: "string \<Rightarrow> string list" where
  "escape_fields esc = Split (takeWhile (\<lambda>c. c \<noteq> CHR ''m'') (drop 2 esc)) CHR '';''"

definition recognised_code :: "int \<Rightarrow> bool" where
  "recognised_code n =
     (n = AttrReset \<or> n = AttrBold \<or> n = AttrUnderline \<or> n = AttrReverse
      \<or> (ColorBlack + ANSIFg \<le> n \<and> n \<le> ColorWhite + ANSIFg)
      \<or> (ColorBlack + ANSIBg \<le> n \<and> n \<le> ColorWhite + ANSIBg))"

definition field_ok :: "string \<Rightarrow> bool" where
  "field_ok v = (case Atoi v of Inl e \<Rightarrow> False | Inr n \<Rightarrow> recognised_code n)"

definition field_error :: "string \<Rightarrow> error" where
  "field_error v = (case Atoi v of Inl e \<Rightarrow> e | Inr n \<Rightarrow> ErrNotEscSequence)"


fun has_sequence :: "Attribute \<Rightarrow> Attribute \<Rightarrow> string \<Rightarrow> bool" where
  "has_sequence dfg dbg [] = False"
| "has_sequence dfg dbg (c # cs) =
     (\<not> isl (DecodeColor dfg dbg (c # cs)) \<or> has_sequence dfg dbg cs)"

text \<open>
  A string whose escapes are settled.  Scanning it from the left as \<open>Unescape\<close> does,
  rune by rune and past each well-formed sequence, every escape byte that the scan meets
  begins a well-formed sequence, except possibly a last one: from an escape byte that
  begins none, the rest of the string is well-formed UTF-8 and no position of it starts
  a well-formed sequence.  Plain text, and plain text with well-formed sequences in it,
  are the case in which the scan meets no such escape byte.
\<close>

function escapes_settled :: "Attribute \<Rightarrow> Attribute \<Rightarrow> string \<Rightarrow> bool" where
  "escapes_settled dfg dbg s =
     (if s = [] then True
      else
        (case DecodeRuneInString s of
           (v, width) \<Rightarrow>
             if v = 0x1B
             then (case DecodeColor dfg dbg s of
                     Inr (a, skip) \<Rightarrow> escapes_settled dfg dbg (drop (nat skip) s)
                   | Inl e \<Rightarrow>
                       string_of_runes (runes_of s) = s \<and> \<not> has_sequence dfg dbg s)
             else escapes_settled dfg dbg (drop (nat width) s)))"
  by pat_completeness auto
termination
  by (relation "measure (\<lambda>(dfg, dbg, s). length s)")
     (auto split: if_splits intro: drop_skip_shorter drop_width_shorter)

declare escapes_settled.simps [simp del]

text \<open>
  The caret's index into the display buffer of an Edit, and the invariant that the
  specification states for it.
\<close>

definition caret_index :: "Edit \<Rightarrow> int" where
  "caret_index e = e_cx e - e_trueX e + e_at e"

definition caret_invariant :: "Edit \<Rightarrow> bool" where
  "caret_invariant e =
     (0 \<le> caret_index e \<and> caret_index e \<le> int (length (e_display e))
      \<and> e_at e \<le> caret_index e)"

text \<open>
  A key event that carries a printable character: a rune with no modifier and no special
  key, or the space key.  \<open>event_rune\<close> is the rune that \<open>KeyHandler\<close> stores for it.
\<close>

definition printable_event :: "Event \<Rightarrow> bool" where
  "printable_event ev =
     (ev_Key ev = KeySpace \<or> (ev_Key ev = 0 \<and> ev_Mod ev = 0 \<and> 0 < ev_Ch ev))"

definition event_rune :: "Event \<Rightarrow> rune" where
  "event_rune ev = (if ev_Key ev = KeySpace then 0x20 else ev_Ch ev)"

text \<open>
  The operations on an Edit that the frame property ranges over, run on a state; what an
  operation leaves behind counts, also when it panics.
\<close>

datatype edit_operation =
    OpKeyHandler Event
  | OpSetText "nat option" bool
  | OpResize
  | OpRender
  | OpFocus

fun run_operation :: "Attributes \<Rightarrow> edit_operation \<Rightarrow> edit_state \<Rightarrow> edit_state" where
  "run_operation g (OpKeyHandler ev) s = fst (KeyHandler g ev s)"
| "run_operation g (OpSetText p end) s = fst (SetText g p end s)"
| "run_operation g OpResize (e, w, h) = (Edit_Resize e w, w, h)"
| "run_operation g OpRender (e, w, h) = (e, fst (Edit_Render g e w), h)"
| "run_operation g OpFocus (e, w, h) = (Edit_Focus e, w, h)"

definition is_Enter :: "edit_operation \<Rightarrow> bool" where
  "is_Enter op = (case op of OpKeyHandler ev \<Rightarrow> ev_Key ev = KeyEnter | _ \<Rightarrow> False)"

text \<open>Concrete windows, widgets and events for the evaluations below.\<close>

definition no_attributes :: Attributes where
  "no_attributes = \<lparr>Fg = 0, Bg = 0\<rparr>"

definition blank_window :: "int \<Rightarrow> int \<Rightarrow> Window" where
  "blank_window W H =
     \<lparr>w_x = W, w_y = H,
      backingStore = replicate (nat (W * H)) \<lparr>Ch = 0, CellFg = 0, CellBg = 0, dirty = False\<rparr>,
      widgets = [], w_focus = - 1\<rparr>"

definition key_event :: "int \<Rightarrow> Event" where
  "key_event k = \<lparr>ev_Mod = 0, ev_Key = k, ev_Ch = 0\<rparr>"

definition rune_event :: "rune \<Rightarrow> Event" where
  "rune_event r = \<lparr>ev_Mod = 0, ev_Key = 0, ev_Ch = r\<rparr>"

definition four_lines :: List where
  "four_lines =
     \<lparr>l_x = 0, l_y = 0, l_width = 6, l_height = 2, l_trueW = 6, l_trueH = 2,
      l_trueX = 0, l_trueY = 0, l_at = 2, l_paging = False, l_attr = no_attributes,
      l_content = [''a'', ''b'', ''c'', ''d''], l_content_cap = 1000,
      l_visibility = VisibilityGet\<rparr>"




section \<open>Properties of the escape codec\<close>

subsection \<open>Strings\<close>

lemma Split_no_sep: "sep \<notin> set x \<Longrightarrow> Split x sep = [x]"
  by (induction x) auto

lemma Split_append_sep: "sep \<notin> set x \<Longrightarrow> Split (x @ sep # r) sep = x # Split r sep"
  by (induction x) auto

lemma Index_first: "c \<notin> set p \<Longrightarrow> Index (p @ c # r) [c] = int (length p)"
  by (induction p) (auto simp: HasPrefix_def Let_def)

lemma Index_none: "c \<notin> set p \<Longrightarrow> Index p [c] = - 1"
  by (induction p) (auto simp: HasPrefix_def Let_def)

lemma HasSuffix_single: "HasSuffix x [c] \<longleftrightarrow> x \<noteq> [] \<and> last x = c"
proof (cases x rule: rev_cases)
  case Nil
  then show ?thesis by (simp add: HasSuffix_def)
next
  case (snoc ys y)
  then show ?thesis by (auto simp: HasSuffix_def)
qed

lemma substr_drop_last:
  "substr (xs @ [c]) 0 (int (length (xs @ [c])) - 1) = Inr xs"
  by (simp add: substr_def)

lemma concat_semicolons:
  "xs \<noteq> [] \<Longrightarrow> concat (map (\<lambda>x. x @ '';'') xs) = join_fields xs @ '';''"
  by (induction xs rule: join_fields.induct) auto

lemma Split_join:
  "xs \<noteq> [] \<Longrightarrow> \<forall>x \<in> set xs. CHR '';'' \<notin> set x \<Longrightarrow> CHR '';'' \<notin> set r \<Longrightarrow>
   Split (join_fields xs @ r) CHR '';'' = butlast xs @ [last xs @ r]"
  by (induction xs rule: join_fields.induct) (auto simp: Split_no_sep Split_append_sep)

lemma set_join: "set (join_fields xs) \<subseteq> insert CHR '';'' (\<Union> (set ` set xs))"
  by (induction xs rule: join_fields.induct) auto

subsection \<open>Encoding, then decoding\<close>

lemma field_at: "valid_attribute at \<Longrightarrow> at \<noteq> AttrNA \<Longrightarrow>
   Atoi (itoa at) = Inr at \<and> CHR '';'' \<notin> set (itoa at) \<and> CHR ''m'' \<notin> set (itoa at)"
  unfolding valid_attribute_def by (elim disjE; hypsubst; code_simp)

lemma color_cases: "valid_color c \<Longrightarrow> c \<noteq> AttrNA \<Longrightarrow> c \<in> {0, 1, 2, 3, 4, 5, 6, 7}"
  unfolding valid_color_def ansi_consts by auto

lemma field_fg: "valid_color c \<Longrightarrow> c \<noteq> AttrNA \<Longrightarrow>
   Atoi (itoa (c + ANSIFg)) = Inr (c + ANSIFg) \<and> CHR '';'' \<notin> set (itoa (c + ANSIFg))
     \<and> CHR ''m'' \<notin> set (itoa (c + ANSIFg))"
  by (drule (1) color_cases, elim insertE emptyE; hypsubst; code_simp)

lemma field_bg: "valid_color c \<Longrightarrow> c \<noteq> AttrNA \<Longrightarrow>
   Atoi (itoa (c + ANSIBg)) = Inr (c + ANSIBg) \<and> CHR '';'' \<notin> set (itoa (c + ANSIBg))
     \<and> CHR ''m'' \<notin> set (itoa (c + ANSIBg))"
  by (drule (1) color_cases, elim insertE emptyE; hypsubst; code_simp)

lemma Color_form:
  assumes "valid_attribute at" "valid_color fg" "valid_color bg"
    and "\<not> (at = AttrNA \<and> fg = AttrNA \<and> bg = AttrNA)"
  shows "Color at fg bg = Inr (ESC # CHR ''['' # join_fields (color_fields at fg bg) @ ''m'')"
proof -
  let ?a = "if at = AttrNA then [] else itoa at @ '';''"
  let ?f = "if fg = AttrNA then [] else itoa (fg + ANSIFg) @ '';''"
  let ?b = "if bg = AttrNA then [] else itoa (bg + ANSIBg) @ '';''"
  have ne: "color_fields at fg bg \<noteq> []"
    using assms(4) by (auto simp: color_fields_def)
  have "?a @ ?f @ ?b = concat (map (\<lambda>x. x @ '';'') (color_fields at fg bg))"
    by (simp add: color_fields_def)
  also have "\<dots> = join_fields (color_fields at fg bg) @ '';''"
    using ne by (rule concat_semicolons)
  finally have es: "[ESC, CHR ''[''] @ ?a @ ?f @ ?b =
      (ESC # CHR ''['' # join_fields (color_fields at fg bg)) @ '';''"
    by simp
  have ok:
    "\<not> \<not> (at = AttrNA \<or> at = AttrBold \<or> at = AttrUnderline \<or> at = AttrReverse \<or> at = AttrReset)"
    "\<not> \<not> (fg = AttrNA \<or> (fg \<ge> ColorBlack \<and> fg \<le> ColorWhite))"
    "\<not> \<not> (bg = AttrNA \<or> (bg \<ge> ColorBlack \<and> bg \<le> ColorWhite))"
    using assms by (auto simp: valid_attribute_def valid_color_def)
  show ?thesis
    unfolding Color_def Let_def es substr_drop_last
    using assms(4) ok by simp
qed

lemma DecodeColor_joined:
  assumes ne: "xs \<noteq> []"
    and clean: "\<forall>x \<in> set xs. CHR '';'' \<notin> set x \<and> CHR ''m'' \<notin> set x"
  shows "DecodeColor dfg dbg (ESC # CHR ''['' # join_fields xs @ ''m'') =
           (case decode_fields dfg dbg (butlast xs @ [last xs @ ''m''])
                   (\<lparr>Fg = 0, Bg = 0\<rparr>, False) of
              Inl e \<Rightarrow> Inl e
            | Inr (a, foundM) \<Rightarrow>
                if foundM = False then Inl ErrNotEscSequence
                else Inr (a, int (length (join_fields xs)) + 3))"
proof -
  let ?j = "join_fields xs"
  let ?esc = "ESC # CHR ''['' # ?j @ ''m''"
  have nom: "CHR ''m'' \<notin> set ?j"
    using clean set_join [of xs] by auto
  have pre: "\<not> (length ?esc < 2 \<or> \<not> HasPrefix ?esc [ESC, CHR ''['']) "
    by (simp add: HasPrefix_def)
  have rest: "substr ?esc 2 (int (length ?esc)) = Inr (?j @ ''m'')"
    by (simp add: substr_def)
  have i: "Index (?j @ ''m'') ''m'' = int (length ?j)"
    using nom by (simp add: Index_first)
  have ps: "substr ?esc 2 (int (length ?j) + 2 + 1) = Inr (?j @ ''m'')"
    by (simp add: substr_def)
  have sp: "Split (?j @ ''m'') CHR '';'' = butlast xs @ [last xs @ ''m'']"
    using ne clean by (simp add: Split_join)
  have "Index ((ESC # CHR ''['' # ?j) @ CHR ''m'' # []) ''m'' = int (length (ESC # CHR ''['' # ?j))"
    using nom by (intro Index_first) (simp add: ESC_def)
  then have sk: "Index ?esc ''m'' = int (length ?j) + 2"
    by simp
  show ?thesis
    unfolding DecodeColor_def
    apply (simp only: pre if_False rest sum.case Let_def i ps sp sk)
    apply (auto split: sum.splits)
    done
qed

lemma decode_field_plain:
  assumes "Atoi x = Inr n" "CHR ''m'' \<notin> set x"
  shows "decode_field dfg dbg x (a, fm) =
    (if n = AttrReset then Inr (a\<lparr>Fg := dfg, Bg := dbg\<rparr>, fm)
     else if n = AttrBold then Inr (a\<lparr>Fg := Fg a OR termbox_AttrBold\<rparr>, fm)
     else if n = AttrUnderline then Inr (a\<lparr>Fg := Fg a OR termbox_AttrUnderline\<rparr>, fm)
     else if n = AttrReverse then Inr (a\<lparr>Fg := Fg a OR termbox_AttrReverse\<rparr>, fm)
     else if n \<ge> ColorBlack + ANSIFg \<and> n \<le> ColorWhite + ANSIFg
       then Inr (a\<lparr>Fg := Fg a OR word_of_int (n - ANSIFg + 1)\<rparr>, fm)
     else if n \<ge> ColorBlack + ANSIBg \<and> n \<le> ColorWhite + ANSIBg
       then Inr (a\<lparr>Bg := Bg a OR word_of_int (n - ANSIBg + 1)\<rparr>, fm)
     else Inl ErrNotEscSequence)"
proof -
  have "\<not> HasSuffix x ''m''"
    using assms(2) by (metis HasSuffix_single last_in_set)
  then show ?thesis
    by (simp add: decode_field_def assms(1) Let_def)
qed

lemma decode_field_last:
  assumes "Atoi x = Inr n"
  shows "decode_field dfg dbg (x @ ''m'') (a, fm) =
    (if n = AttrReset then Inr (a\<lparr>Fg := dfg, Bg := dbg\<rparr>, True)
     else if n = AttrBold then Inr (a\<lparr>Fg := Fg a OR termbox_AttrBold\<rparr>, True)
     else if n = AttrUnderline then Inr (a\<lparr>Fg := Fg a OR termbox_AttrUnderline\<rparr>, True)
     else if n = AttrReverse then Inr (a\<lparr>Fg := Fg a OR termbox_AttrReverse\<rparr>, True)
     else if n \<ge> ColorBlack + ANSIFg \<and> n \<le> ColorWhite + ANSIFg
       then Inr (a\<lparr>Fg := Fg a OR word_of_int (n - ANSIFg + 1)\<rparr>, True)
     else if n \<ge> ColorBlack + ANSIBg \<and> n \<le> ColorWhite + ANSIBg
       then Inr (a\<lparr>Bg := Bg a OR word_of_int (n - ANSIBg + 1)\<rparr>, True)
     else Inl ErrNotEscSequence)"
proof -
  have "HasSuffix (x @ ''m'') ''m''"
    by (simp add: HasSuffix_single)
  moreover have "substr (x @ ''m'') 0 (int (length (x @ ''m'')) - 1) = Inr x"
    by (rule substr_drop_last)
  ultimately show ?thesis
    by (simp add: decode_field_def assms(1) Let_def)
qed

lemma length_Color_form:
  "int (length (ESC # CHR ''['' # j @ ''m'')) = int (length j) + 3"
  by simp

text \<open>
  C1.  For every attribute, foreground and background that lie in their enumerations
  (or are \<open>AttrNA\<close>) and are not all \<open>AttrNA\<close>, \<open>Color\<close> returns a string, and
  \<open>DecodeColor\<close> of that string succeeds with the attributes of the direct construction
  and with a skip equal to the length of the whole string.
\<close>

theorem DecodeColor_Color_roundtrip:
  assumes "valid_attribute at" "valid_color fg" "valid_color bg"
    and "\<not> (at = AttrNA \<and> fg = AttrNA \<and> bg = AttrNA)"
  shows "\<exists>s. Color at fg bg = Inr s \<and>
             DecodeColor dfg dbg s =
               Inr (construct_attributes dfg dbg at fg bg, int (length s))"
proof -
  let ?xs = "color_fields at fg bg"
  let ?s = "ESC # CHR ''['' # join_fields ?xs @ ''m''"
  have c: "Color at fg bg = Inr ?s"
    using assms by (rule Color_form)
  have ne: "?xs \<noteq> []"
    using assms(4) by (auto simp: color_fields_def)
  have clean: "\<forall>x \<in> set ?xs. CHR '';'' \<notin> set x \<and> CHR ''m'' \<notin> set x"
    using assms(1-3) field_at [of at] field_fg [of fg] field_bg [of bg]
    by (auto simp: color_fields_def)
  note d = DecodeColor_joined [OF ne clean, of dfg dbg]
  have A: "at \<noteq> AttrNA \<Longrightarrow> Atoi (itoa at) = Inr at \<and> CHR ''m'' \<notin> set (itoa at)"
    using field_at [of at] assms(1) by simp
  have F: "fg \<noteq> AttrNA \<Longrightarrow>
      Atoi (itoa (fg + ANSIFg)) = Inr (fg + ANSIFg) \<and> CHR ''m'' \<notin> set (itoa (fg + ANSIFg))"
    using field_fg [of fg] assms(2) by simp
  have B: "bg \<noteq> AttrNA \<Longrightarrow>
      Atoi (itoa (bg + ANSIBg)) = Inr (bg + ANSIBg) \<and> CHR ''m'' \<notin> set (itoa (bg + ANSIBg))"
    using field_bg [of bg] assms(3) by simp
  have "DecodeColor dfg dbg ?s =
      Inr (construct_attributes dfg dbg at fg bg, int (length (join_fields ?xs)) + 3)"
    unfolding d
    using assms A F B
    apply (cases "at = AttrNA"; cases "fg = AttrNA"; cases "bg = AttrNA")
           apply (auto simp: color_fields_def decode_field_plain decode_field_last
        construct_attributes_def attribute_bits_def color_bits_def valid_attribute_def
        valid_color_def ansi_consts)
    done
  then show ?thesis
    using c by (simp only: length_Color_form) simp
qed

theorem DecodeColor_Color_roundtrip_witness:
  "valid_attribute AttrBold \<and> valid_color ColorRed \<and> valid_color AttrNA
   \<and> \<not> (AttrBold = AttrNA \<and> ColorRed = AttrNA \<and> AttrNA = AttrNA)
   \<and> Color AttrBold ColorRed AttrNA = Inr (ESC # ''[1;31m'')
   \<and> DecodeColor 0 0 (ESC # ''[1;31m'') = Inr (\<lparr>Fg = 0x0200 OR 2, Bg = 0\<rparr>, 7)"
proof -
  have v: "valid_attribute AttrBold" "valid_color ColorRed" "valid_color AttrNA"
    "\<not> (AttrBold = AttrNA \<and> ColorRed = AttrNA \<and> AttrNA = AttrNA)"
    by (simp_all add: valid_attribute_def valid_color_def ansi_consts)
  have c: "Color AttrBold ColorRed AttrNA = Inr (ESC # ''[1;31m'')"
    by code_simp
  have k: "construct_attributes 0 0 AttrBold ColorRed AttrNA = \<lparr>Fg = 0x0200 OR 2, Bg = 0\<rparr>"
    by (simp add: construct_attributes_def attribute_bits_def color_bits_def ansi_consts
        termbox_AttrBold_def)
  show ?thesis
    using DecodeColor_Color_roundtrip [OF v, of 0 0] v c k by simp
qed

subsection \<open>UTF-8 decoding and encoding\<close>

lemma of_char_int_range: "0 \<le> (of_char c :: int) \<and> (of_char c :: int) < 256"
proof -
  have "(of_char c :: int) = int (of_char c)"
    by (simp add: of_nat_of_char)
  moreover have "(of_char c :: nat) < 256"
    by simp
  ultimately show ?thesis
    by linarith
qed

lemma mod_offset: "0 \<le> x \<Longrightarrow> x < m \<Longrightarrow> (k * m + x) mod m = (x::int)"
  by simp

lemma lead2_mod: "0xC0 \<le> s \<Longrightarrow> s < 0xE0 \<Longrightarrow> s mod 32 = s - (0xC0::int)"
  using mod_offset [of "s - 0xC0" 32 6] by simp

lemma lead3_mod: "0xE0 \<le> s \<Longrightarrow> s < 0xF0 \<Longrightarrow> s mod 16 = s - (0xE0::int)"
  using mod_offset [of "s - 0xE0" 16 14] by simp

lemma lead4_mod: "0xF0 \<le> s \<Longrightarrow> s < 0xF8 \<Longrightarrow> s mod 8 = s - (0xF0::int)"
  using mod_offset [of "s - 0xF0" 8 30] by simp

lemma cont_mod: "0x80 \<le> s \<Longrightarrow> s \<le> 0xBF \<Longrightarrow> s mod 64 = s - (0x80::int)"
  using mod_offset [of "s - 0x80" 64 2] by simp









subsection \<open>The failures of DecodeColor\<close>

lemma Split_not_Nil: "Split p sep \<noteq> []"
  by (induction p) (auto split: list.splits)

lemma Split_snoc:
  "sep \<notin> set r \<Longrightarrow> Split (p @ r) sep = butlast (Split p sep) @ [last (Split p sep) @ r]"
  by (induction p) (auto simp: Split_no_sep Split_not_Nil split: list.splits)

lemma Split_subset: "v \<in> set (Split p sep) \<Longrightarrow> set v \<subseteq> set p"
  by (induction p arbitrary: v) (fastforce split: if_splits list.splits)+

lemma split_at_first:
  assumes "c \<in> set s"
  shows "\<exists>r. s = takeWhile (\<lambda>x. x \<noteq> c) s @ c # r"
proof -
  have ne: "dropWhile (\<lambda>x. x \<noteq> c) s \<noteq> []"
    using assms by (auto simp: dropWhile_eq_Nil_conv)
  then have "hd (dropWhile (\<lambda>x. x \<noteq> c) s) = c"
    using hd_dropWhile [of "\<lambda>x. x \<noteq> c" s] by simp
  with ne obtain r where "dropWhile (\<lambda>x. x \<noteq> c) s = c # r"
    by (cases "dropWhile (\<lambda>x. x \<noteq> c) s") auto
  then have "s = takeWhile (\<lambda>x. x \<noteq> c) s @ c # r"
    using takeWhile_dropWhile_id [of "\<lambda>x. x \<noteq> c" s] by simp
  then show ?thesis ..
qed

lemma Index_takeWhile:
  assumes "c \<in> set s"
  shows "Index s [c] = int (length (takeWhile (\<lambda>x. x \<noteq> c) s))"
proof -
  from split_at_first [OF assms] obtain r
    where r: "s = takeWhile (\<lambda>x. x \<noteq> c) s @ c # r" ..
  have "c \<notin> set (takeWhile (\<lambda>x. x \<noteq> c) s)"
    by (auto dest: set_takeWhileD)
  then have "Index (takeWhile (\<lambda>x. x \<noteq> c) s @ c # r) [c]
      = int (length (takeWhile (\<lambda>x. x \<noteq> c) s))"
    by (rule Index_first)
  then show ?thesis
    using r by simp
qed

lemma Atoi_no_panic: "Atoi v \<noteq> Inl RuntimePanic"
  by (auto simp: Atoi_def Let_def split: sum.splits)

lemma decode_field_no_panic: "decode_field dfg dbg v st \<noteq> Inl RuntimePanic"
proof (cases "HasSuffix v ''m''")
  case True
  then have "substr v 0 (int (length v) - 1) = Inr (butlast v)"
    by (cases v rule: rev_cases) (auto simp: HasSuffix_def substr_def)
  then show ?thesis
    using True Atoi_no_panic [of "butlast v"]
    by (auto simp: decode_field_def Let_def split: sum.splits)
next
  case False
  then show ?thesis
    using Atoi_no_panic [of v]
    by (auto simp: decode_field_def Let_def split: sum.splits)
qed

lemma decode_fields_no_panic: "decode_fields dfg dbg vs st \<noteq> Inl RuntimePanic"
  by (induction vs arbitrary: st) (auto simp: decode_field_no_panic split: sum.splits)

lemma decode_field_ok:
  assumes "field_ok x" "CHR ''m'' \<notin> set x"
  shows "\<exists>a'. decode_field dfg dbg x (a, fm) = Inr (a', fm)"
    and "\<exists>a'. decode_field dfg dbg (x @ ''m'') (a, fm) = Inr (a', True)"
proof -
  from assms(1) obtain n where n: "Atoi x = Inr n" "recognised_code n"
    by (auto simp: field_ok_def split: sum.splits)
  show "\<exists>a'. decode_field dfg dbg x (a, fm) = Inr (a', fm)"
    using n(2) unfolding decode_field_plain [OF n(1) assms(2)] recognised_code_def by auto
  show "\<exists>a'. decode_field dfg dbg (x @ ''m'') (a, fm) = Inr (a', True)"
    using n(2) unfolding decode_field_last [OF n(1)] recognised_code_def by auto
qed

lemma decode_field_bad:
  assumes "\<not> field_ok x" "CHR ''m'' \<notin> set x"
  shows "decode_field dfg dbg x (a, fm) = Inl (field_error x)"
    and "decode_field dfg dbg (x @ ''m'') (a, fm) = Inl (field_error x)"
proof -
  have nos: "\<not> HasSuffix x ''m''"
    using assms(2) by (metis HasSuffix_single last_in_set)
  have suf: "HasSuffix (x @ ''m'') ''m''"
    by (simp add: HasSuffix_single)
  have sub: "substr (x @ ''m'') 0 (int (length (x @ ''m'')) - 1) = Inr x"
    by (rule substr_drop_last)
  show "decode_field dfg dbg x (a, fm) = Inl (field_error x)"
  proof (cases "Atoi x")
    case (Inl e)
    then show ?thesis
      using nos by (simp add: decode_field_def field_error_def)
  next
    case (Inr n)
    then have "\<not> recognised_code n"
      using assms(1) by (simp add: field_ok_def)
    then show ?thesis
      unfolding decode_field_plain [OF Inr assms(2)]
      by (auto simp: recognised_code_def field_error_def Inr)
  qed
  show "decode_field dfg dbg (x @ ''m'') (a, fm) = Inl (field_error x)"
  proof (cases "Atoi x")
    case (Inl e)
    then show ?thesis
      using suf sub by (simp add: decode_field_def field_error_def)
  next
    case (Inr n)
    then have "\<not> recognised_code n"
      using assms(1) by (simp add: field_ok_def)
    then show ?thesis
      unfolding decode_field_last [OF Inr]
      by (auto simp: recognised_code_def field_error_def Inr)
  qed
qed

lemma decode_fields_result:
  assumes "fs \<noteq> []" "\<forall>v \<in> set fs. CHR ''m'' \<notin> set v"
  shows "case find (\<lambda>v. \<not> field_ok v) fs of
           Some v \<Rightarrow> decode_fields dfg dbg (butlast fs @ [last fs @ ''m'']) (a, fm)
                       = Inl (field_error v)
         | None \<Rightarrow> \<exists>a'. decode_fields dfg dbg (butlast fs @ [last fs @ ''m'']) (a, fm)
                       = Inr (a', True)"
  using assms
proof (induction fs arbitrary: a fm)
  case Nil
  then show ?case by simp
next
  case (Cons x fs)
  have nm: "CHR ''m'' \<notin> set x"
    using Cons.prems(2) by simp
  show ?case
  proof (cases "fs = []")
    case True
    show ?thesis
    proof (cases "field_ok x")
      case ok: True
      from decode_field_ok(2) [OF ok nm, of dfg dbg a fm]
      show ?thesis using True ok by auto
    next
      case bad: False
      from decode_field_bad(2) [OF bad nm, of dfg dbg a fm]
      show ?thesis using True bad by auto
    qed
  next
    case False
    show ?thesis
    proof (cases "field_ok x")
      case ok: True
      from decode_field_ok(1) [OF ok nm, of dfg dbg a fm]
      obtain a' where a': "decode_field dfg dbg x (a, fm) = Inr (a', fm)" ..
      from Cons.IH [OF False, of a' fm] Cons.prems(2)
      show ?thesis using False ok a' by (auto split: option.splits)
    next
      case bad: False
      from decode_field_bad(1) [OF bad nm, of dfg dbg a fm]
      show ?thesis using False bad by auto
    qed
  qed
qed

lemma DecodeColor_no_prefix:
  "\<not> HasPrefix esc [ESC, CHR ''['']  \<Longrightarrow> DecodeColor dfg dbg esc = Inl ErrNotEscSequence"
  by (simp add: DecodeColor_def)

lemma DecodeColor_no_terminator:
  assumes "CHR ''m'' \<notin> set (drop 2 esc)"
  shows "DecodeColor dfg dbg esc = Inl ErrNotEscSequence"
proof (cases "length esc < 2 \<or> \<not> HasPrefix esc [ESC, CHR ''['']")
  case True
  then show ?thesis by (simp add: DecodeColor_def)
next
  case False
  then have "substr esc 2 (int (length esc)) = Inr (drop 2 esc)"
    by (simp add: substr_def)
  moreover have "Index (drop 2 esc) ''m'' = - 1"
    using assms by (rule Index_none)
  ultimately show ?thesis
    using False by (simp add: DecodeColor_def)
qed

lemma DecodeColor_with_terminator:
  assumes pre: "HasPrefix esc [ESC, CHR ''['']" and m: "CHR ''m'' \<in> set (drop 2 esc)"
  shows "DecodeColor dfg dbg esc =
           (case decode_fields dfg dbg
                   (butlast (escape_fields esc) @ [last (escape_fields esc) @ ''m''])
                   (\<lparr>Fg = 0, Bg = 0\<rparr>, False) of
              Inl e \<Rightarrow> Inl e
            | Inr (a, foundM) \<Rightarrow>
                if foundM = False then Inl ErrNotEscSequence
                else Inr (a, int (length (takeWhile (\<lambda>c. c \<noteq> CHR ''m'') esc)) + 1))"
proof -
  let ?p = "takeWhile (\<lambda>c. c \<noteq> CHR ''m'') (drop 2 esc)"
  from pre have len: "2 \<le> length esc" and tk: "take 2 esc = [ESC, CHR ''['']"
    by (auto simp: HasPrefix_def numeral_2_eq_2)
  have esc: "esc = ESC # CHR ''['' # drop 2 esc"
    using tk append_take_drop_id [of 2 esc] by simp
  have guard: "\<not> (length esc < 2 \<or> \<not> HasPrefix esc [ESC, CHR ''['']) "
    using pre len by simp
  have rest: "substr esc 2 (int (length esc)) = Inr (drop 2 esc)"
    using len by (simp add: substr_def)
  have i: "Index (drop 2 esc) ''m'' = int (length ?p)"
    using m by (rule Index_takeWhile)
  from split_at_first [OF m] obtain r where body: "drop 2 esc = ?p @ CHR ''m'' # r" ..
  have "take (length ?p + 1) (drop 2 esc) = ?p @ ''m''"
    by (subst body) simp
  moreover have "length ?p + 1 \<le> length (drop 2 esc)"
    by (subst (2) body) simp
  ultimately have ps: "substr esc 2 (int (length ?p) + 2 + 1) = Inr (?p @ ''m'')"
    using len by (simp add: substr_def nat_add_distrib)
  have sp: "Split (?p @ ''m'') CHR '';'' =
      butlast (escape_fields esc) @ [last (escape_fields esc) @ ''m'']"
    unfolding escape_fields_def by (rule Split_snoc) simp
  have tw0: "takeWhile (\<lambda>c. c \<noteq> CHR ''m'') esc = ESC # CHR ''['' # ?p"
    by (subst esc) (simp add: ESC_def)
  moreover have "CHR ''m'' \<in> set esc"
    using m by (meson in_set_dropD)
  ultimately have sk: "Index esc ''m'' = int (length ?p) + 2"
    using Index_takeWhile [of "CHR ''m''" esc] by simp
  have tw: "int (length (takeWhile (\<lambda>c. c \<noteq> CHR ''m'') esc)) + 1 = int (length ?p) + 2 + 1"
    using tw0 by simp
  show ?thesis
    unfolding DecodeColor_def tw
    apply (simp only: guard if_False rest sum.case Let_def i ps sp sk)
    apply (auto split: sum.splits)
    done
qed

lemma DecodeColor_no_panic: "DecodeColor dfg dbg esc \<noteq> Inl RuntimePanic"
proof (cases "HasPrefix esc [ESC, CHR ''['']  \<and> CHR ''m'' \<in> set (drop 2 esc)")
  case True
  then show ?thesis
    using decode_fields_no_panic
    by (auto simp: DecodeColor_with_terminator split: sum.splits)
next
  case False
  then show ?thesis
    using DecodeColor_no_prefix [of esc dfg dbg] DecodeColor_no_terminator [of esc dfg dbg]
    by auto
qed

text \<open>
  C2, as the code has it.  \<open>DecodeColor\<close> never panics.  It fails with
  \<open>ErrNotEscSequence\<close> when the string does not begin with the escape marker or has no
  terminator \<open>m\<close> after it.  Otherwise the first field that is no recognised code decides:
  where that field parses as an integer the error is \<open>ErrNotEscSequence\<close>, where it does
  not parse the error is the \<open>NumError\<close> of \<open>strconv.Atoi\<close>; and where every field is a
  recognised code \<open>DecodeColor\<close> succeeds, with the skip just past the first \<open>m\<close>.
\<close>

theorem DecodeColor_failures:
  "DecodeColor dfg dbg esc \<noteq> Inl RuntimePanic
   \<and> (\<not> HasPrefix esc [ESC, CHR ''['']
        \<longrightarrow> DecodeColor dfg dbg esc = Inl ErrNotEscSequence)
   \<and> (CHR ''m'' \<notin> set (drop 2 esc)
        \<longrightarrow> DecodeColor dfg dbg esc = Inl ErrNotEscSequence)
   \<and> (HasPrefix esc [ESC, CHR ''['']  \<and> CHR ''m'' \<in> set (drop 2 esc)
        \<longrightarrow> (case find (\<lambda>v. \<not> field_ok v) (escape_fields esc) of
               Some v \<Rightarrow>
                 DecodeColor dfg dbg esc = Inl (field_error v)
                 \<and> (field_error v = ErrNotEscSequence \<longleftrightarrow> (\<exists>n. Atoi v = Inr n))
             | None \<Rightarrow>
                 \<exists>a. DecodeColor dfg dbg esc =
                   Inr (a, int (length (takeWhile (\<lambda>c. c \<noteq> CHR ''m'') esc)) + 1)))"
proof (intro conjI impI)
  show "DecodeColor dfg dbg esc \<noteq> Inl RuntimePanic"
    by (rule DecodeColor_no_panic)
  show "DecodeColor dfg dbg esc = Inl ErrNotEscSequence"
    if "\<not> HasPrefix esc [ESC, CHR ''['']"
    using that by (rule DecodeColor_no_prefix)
  show "DecodeColor dfg dbg esc = Inl ErrNotEscSequence"
    if "CHR ''m'' \<notin> set (drop 2 esc)"
    using that by (rule DecodeColor_no_terminator)
  show "case find (\<lambda>v. \<not> field_ok v) (escape_fields esc) of
          Some v \<Rightarrow>
            DecodeColor dfg dbg esc = Inl (field_error v)
            \<and> (field_error v = ErrNotEscSequence \<longleftrightarrow> (\<exists>n. Atoi v = Inr n))
        | None \<Rightarrow>
            \<exists>a. DecodeColor dfg dbg esc =
              Inr (a, int (length (takeWhile (\<lambda>c. c \<noteq> CHR ''m'') esc)) + 1)"
    if h: "HasPrefix esc [ESC, CHR ''['']  \<and> CHR ''m'' \<in> set (drop 2 esc)"
  proof -
    have ne: "escape_fields esc \<noteq> []"
      by (simp add: escape_fields_def Split_not_Nil)
    have nom: "\<forall>v \<in> set (escape_fields esc). CHR ''m'' \<notin> set v"
      unfolding escape_fields_def
      by (auto dest!: Split_subset set_takeWhileD)
    have err: "field_error v = ErrNotEscSequence \<longleftrightarrow> (\<exists>n. Atoi v = Inr n)" for v
      by (auto simp: field_error_def Atoi_def Let_def split: sum.splits if_splits)
    from decode_fields_result [OF ne nom, of dfg dbg "\<lparr>Fg = 0, Bg = 0\<rparr>" False]
    show ?thesis
      using h err by (auto simp: DecodeColor_with_terminator split: option.splits)
  qed
qed

theorem DecodeColor_failures_witness:
  "\<not> HasPrefix ''[1m'' [ESC, CHR ''['']
   \<and> DecodeColor 0 0 ''[1m'' = Inl ErrNotEscSequence
   \<and> CHR ''m'' \<notin> set (drop 2 (ESC # ''[1;31''))
   \<and> DecodeColor 0 0 (ESC # ''[1;31'') = Inl ErrNotEscSequence
   \<and> HasPrefix (ESC # ''[1;99;xm'') [ESC, CHR ''['']
   \<and> CHR ''m'' \<in> set (drop 2 (ESC # ''[1;99;xm''))
   \<and> find (\<lambda>v. \<not> field_ok v) (escape_fields (ESC # ''[1;99;xm'')) = Some ''99''
   \<and> DecodeColor 0 0 (ESC # ''[1;99;xm'') = Inl ErrNotEscSequence
   \<and> DecodeColor 0 0 (ESC # ''[1;99;xm'') \<noteq> Inl RuntimePanic"
proof -
  have a: "\<not> HasPrefix ''[1m'' [ESC, CHR ''['']"
    by code_simp
  have b: "CHR ''m'' \<notin> set (drop 2 (ESC # ''[1;31''))"
    by simp
  have c: "HasPrefix (ESC # ''[1;99;xm'') [ESC, CHR ''['']"
    "CHR ''m'' \<in> set (drop 2 (ESC # ''[1;99;xm''))"
    by (simp_all add: HasPrefix_def)
  have d: "find (\<lambda>v. \<not> field_ok v) (escape_fields (ESC # ''[1;99;xm'')) = Some ''99''"
    by code_simp
  have e: "field_error ''99'' = ErrNotEscSequence"
    by code_simp
  show ?thesis
    using DecodeColor_failures [of 0 0 "''[1m''"]
      DecodeColor_failures [of 0 0 "ESC # ''[1;31''"]
      DecodeColor_failures [of 0 0 "ESC # ''[1;99;xm''"] a b c d e
    by simp
qed

text \<open>
  As stated for every failure, the property fails on a field that does not parse: the error is the one of
  \<open>strconv.Atoi\<close>, not \<open>ErrNotEscSequence\<close>.
\<close>

theorem DecodeColor_parse_error_counterexample:
  "Atoi ''x'' = Inl (NumError ''x'' ErrSyntax)
   \<and> DecodeColor 0 0 (ESC # ''[xm'') = Inl (NumError ''x'' ErrSyntax)
   \<and> DecodeColor 0 0 (ESC # ''[xm'') \<noteq> Inl ErrNotEscSequence"
  by code_simp

subsection \<open>Unescape\<close>











lemma DecodeColor_needs_ESC: "c \<noteq> ESC \<Longrightarrow> isl (DecodeColor dfg dbg (c # cs))"
  by (simp add: DecodeColor_def HasPrefix_def)



text \<open>
  Plain text, with no escape byte, has its escapes settled, whatever its bytes; a
  well-formed sequence in front of a string changes nothing to that; and the string
  \<open>ESC ESC [1m[1m\<close>, whose first escape byte begins no sequence while the second
  does, has not.
\<close>

lemma char_of_ESC: "char_of (0x1B :: int) = ESC"
  by code_simp

lemma DecodeRuneInString_ESC_head:
  assumes "DecodeRuneInString s = (0x1B, w)"
  shows "\<exists>cs. s = ESC # cs"
proof (cases s)
  case Nil
  with assms show ?thesis
    by (simp add: RuneError_def)
next
  case (Cons c0 cs)
  have r0: "0 \<le> (of_char c0 :: int)"
    using of_char_int_range [of c0] by auto
  have "(of_char c0 :: int) = 0x1B"
    using assms r0 unfolding Cons
    by (auto simp: Let_def RuneError_def lead2_mod lead3_mod lead4_mod cont_mod
        split: if_splits)
  then have "char_of (of_char c0 :: int) = (char_of (0x1B :: int) :: char)"
    by simp
  then have "c0 = ESC"
    by (simp only: char_of_ESC char_of_char)
  with Cons show ?thesis
    by simp
qed

lemma plain_text_settled: "ESC \<notin> set s \<Longrightarrow> escapes_settled dfg dbg s"
proof (induction dfg dbg s rule: escapes_settled.induct)
  case (1 dfg dbg s)
  show ?case
  proof (cases "s = []")
    case True
    then show ?thesis
      by (simp add: escapes_settled.simps)
  next
    case False
    obtain v width where dr: "DecodeRuneInString s = (v, width)"
      by (cases "DecodeRuneInString s")
    have plain: "v \<noteq> 0x1B"
      using DecodeRuneInString_ESC_head [of s width] dr "1.prems" by auto
    have "ESC \<notin> set (drop (nat width) s)"
      using "1.prems" by (auto dest: in_set_dropD)
    from "1.IH"(2) [OF False dr [symmetric] plain this]
    show ?thesis
      using False dr plain by (subst escapes_settled.simps) simp
  qed
qed

lemma sequence_then_settled:
  assumes "DecodeColor dfg dbg s = Inr (a, skip)"
  shows "escapes_settled dfg dbg s = escapes_settled dfg dbg (drop (nat skip) s)"
proof -
  have "\<not> isl (DecodeColor dfg dbg s)"
    using assms by simp
  moreover have "isl (DecodeColor dfg dbg [])"
    by (simp add: DecodeColor_def HasPrefix_def)
  ultimately obtain cs where s: "s = ESC # cs"
    using DecodeColor_needs_ESC [of _ dfg dbg] by (cases s) auto
  have "DecodeRuneInString s = (0x1B, 1)"
    by (simp add: s ESC_def)
  then show ?thesis
    using assms s by (subst escapes_settled.simps) simp
qed

lemma doubled_escape_not_settled: "\<not> escapes_settled 0 0 (ESC # ESC # ''[1m[1m'')"
  by code_simp




section \<open>Properties of the widgets and the window\<close>

subsection \<open>The caret of an Edit\<close>

text \<open>
  C4.  The invariant holds after \<open>AddEdit\<close>, \<open>Focus\<close>, the end key and the arrow key,
  and the backspace that follows breaks it: on a window of 20 by 5 an Edit of width 3 at
  column 2 with the text \<open>abcd\<close> has its caret at index 3 after end and one arrow-left;
  backspace then leaves a buffer of three runes and the caret at index 4.
\<close>

theorem Backspace_breaks_caret_invariant:
  "(case AddEdit no_attributes 2 4 3 (Some 0) (blank_window 20 5) (\<lambda>a. ''abcd'') of
      ((e0, w0, h0), r0) \<Rightarrow>
        (case KeyHandler no_attributes (key_event KeyEnd) (Edit_Focus e0, w0, h0) of
           (s1, r1) \<Rightarrow>
             (case KeyHandler no_attributes (key_event KeyArrowLeft) s1 of
                (s2, r2) \<Rightarrow>
                  (case KeyHandler no_attributes (key_event KeyBackspace) s2 of
                     (s3, r3) \<Rightarrow>
                       r0 = Returned () \<and> caret_invariant e0
                       \<and> caret_invariant (Edit_Focus e0)
                       \<and> r1 = Returned True \<and> caret_invariant (fst s1)
                       \<and> r2 = Returned True \<and> caret_invariant (fst s2)
                       \<and> caret_index (fst s2) = 3
                       \<and> r3 = Returned True \<and> \<not> caret_invariant (fst s3)
                       \<and> caret_index (fst s3) = 4
                       \<and> e_display (fst s3) = [97, 98, 100]))))"
  by code_simp

subsection \<open>Inserting a rune\<close>

lemma slice_from_Some:
  "0 \<le> i \<Longrightarrow> i \<le> int (length xs) \<Longrightarrow> slice_from xs i = Some (drop (nat i) xs)"
  by (simp add: slice_from_def slice_def)

lemma insert_rune_eq:
  assumes "0 \<le> i" "i \<le> int (length xs)"
  shows "insert_rune xs i v = Some (take (nat i) xs @ v # drop (nat i) xs)"
proof -
  let ?n = "nat i"
  have n: "?n \<le> length xs"
    using assms by simp
  have dst: "slice_from (xs @ [v]) (i + 1) = Some (drop (Suc ?n) (xs @ [v]))"
    using assms by (simp add: slice_from_Some nat_add_distrib)
  have src: "slice_from (xs @ [v]) i = Some (drop ?n (xs @ [v]))"
    using assms by (simp add: slice_from_Some)
  have l1: "length (drop (Suc ?n) (xs @ [v])) = length xs - ?n"
    using n by simp
  have l2: "length (drop ?n (xs @ [v])) = Suc (length xs - ?n)"
    using n by simp
  have mn: "min (length (drop (Suc ?n) (xs @ [v]))) (length (drop ?n (xs @ [v])))
      = length xs - ?n"
    unfolding l1 l2 by simp
  have tk: "take (length xs - ?n) (drop ?n (xs @ [v])) = drop ?n xs"
    using n by simp
  have dr: "drop (length xs - ?n) (drop (Suc ?n) (xs @ [v])) = []"
    using n by simp
  have hd: "take (nat (i + 1)) (xs @ [v]) = take ?n xs @ [(xs @ [v]) ! ?n]"
  proof -
    have "nat (i + 1) = Suc ?n"
      using assms by simp
    moreover have "?n < length (xs @ [v])"
      using n by simp
    then have "take (Suc ?n) (xs @ [v]) = take ?n (xs @ [v]) @ [(xs @ [v]) ! ?n]"
      by (rule take_Suc_conv_app_nth)
    moreover have "take ?n (xs @ [v]) = take ?n xs"
      using n by simp
    ultimately show ?thesis
      by simp
  qed
  have upd: "(take ?n xs @ [(xs @ [v]) ! ?n] @ drop ?n xs)[?n := v]
      = take ?n xs @ v # drop ?n xs"
    using n by (simp add: list_update_append)
  have len: "i < int (length (take ?n xs @ [(xs @ [v]) ! ?n] @ drop ?n xs))"
    using assms n by simp
  show ?thesis
    unfolding insert_rune_def Let_def dst src option.case mn tk dr hd
    using assms(1) len upd by simp
qed

lemma Render_return_edit: "fst (fst (Render_return g e w h r)) = e"
  by (simp add: Render_return_def split: prod.splits outcome.splits)

lemma Render_return_heap: "snd (snd (fst (Render_return g e w h r))) = h"
  by (simp add: Render_return_def split: prod.splits outcome.splits)

lemma KeyHandler_rune_display:
  assumes "ev_Ch ev \<noteq> 0" "ev_Mod ev = 0 \<or> ev_Key ev \<noteq> 0"
    and "0 \<le> caret_index e" "caret_index e \<le> int (length (e_display e))"
  shows "e_display (fst (fst (KeyHandler_rune g ev (e, w, h)))) =
           take (nat (caret_index e)) (e_display e) @ ev_Ch ev
             # drop (nat (caret_index e)) (e_display e)"
proof -
  have ins: "insert_rune (e_display e) (e_cx e - e_trueX e + e_at e) (ev_Ch ev) =
      Some (take (nat (caret_index e)) (e_display e) @ ev_Ch ev
              # drop (nat (caret_index e)) (e_display e))"
    using assms(3,4) insert_rune_eq [of "caret_index e" "e_display e" "ev_Ch ev"]
    by (simp add: caret_index_def)
  show ?thesis
    using assms(1,2)
    by (auto simp: KeyHandler_rune_def Let_def ins Render_return_edit)
qed

text \<open>
  C6.  Where the caret of an Edit sits at a valid position \<open>p\<close> of the display buffer,
  handling a key event that carries a printable character leaves the buffer one rune
  longer: the runes before \<open>p\<close> are as they were, the new rune is at \<open>p\<close>, and the runes
  that were at \<open>p\<close> and after follow it.  This is what \<open>KeyHandler\<close> leaves whether or not
  the rendering that ends it panics.
\<close>

theorem KeyHandler_inserts_at_caret:
  assumes "printable_event ev"
    and "p = caret_index e" "0 \<le> p" "p \<le> int (length (e_display e))"
    and "e' = fst (fst (KeyHandler g ev (e, w, h)))"
  shows "e_display e' = take (nat p) (e_display e) @ [event_rune ev] @ drop (nat p) (e_display e)
    \<and> length (e_display e') = length (e_display e) + 1
    \<and> (\<forall>k < nat p. e_display e' ! k = e_display e ! k)
    \<and> e_display e' ! nat p = event_rune ev
    \<and> (\<forall>k. nat p \<le> k \<and> k < length (e_display e)
          \<longrightarrow> e_display e' ! Suc k = e_display e ! k)"
proof -
  let ?d = "e_display e"
  have n: "nat p \<le> length ?d"
    using assms(3,4) by simp
  have d: "e_display e' = take (nat p) ?d @ event_rune ev # drop (nat p) ?d"
  proof (cases "ev_Key ev = KeySpace")
    case True
    let ?ev = "ev\<lparr>ev_Ch := 0x20\<rparr>"
    have "KeyHandler g ev (e, w, h) = KeyHandler_rune g ?ev (e, w, h)"
      using True by (simp add: KeyHandler_def key_consts)
    moreover have "ev_Ch ?ev \<noteq> 0" "ev_Mod ?ev = 0 \<or> ev_Key ?ev \<noteq> 0"
      using True by (simp_all add: key_consts)
    ultimately show ?thesis
      using KeyHandler_rune_display [of ?ev e g w h] assms(2-5) True
      by (simp add: event_rune_def)
  next
    case False
    then have k: "ev_Key ev = 0" "ev_Mod ev = 0" "ev_Ch ev \<noteq> 0"
      using assms(1) by (auto simp: printable_event_def)
    have "KeyHandler g ev (e, w, h) = KeyHandler_rune g ev (e, w, h)"
      using k(1) by (simp add: KeyHandler_def key_consts)
    then show ?thesis
      using KeyHandler_rune_display [of ev e g w h] assms(2-5) k False
      by (simp add: event_rune_def)
  qed
  have a: "e_display e' = take (nat p) ?d @ [event_rune ev] @ drop (nat p) ?d"
    using d by simp
  have b: "length (e_display e') = length ?d + 1"
    using d n by simp
  have c: "\<forall>k < nat p. e_display e' ! k = ?d ! k"
    using d n by (simp add: nth_append)
  have f: "e_display e' ! nat p = event_rune ev"
    using d n by (simp add: nth_append)
  have "e_display e' ! Suc k = ?d ! k" if k: "nat p \<le> k \<and> k < length ?d" for k
  proof -
    have "e_display e' ! Suc k = (event_rune ev # drop (nat p) ?d) ! (Suc k - nat p)"
      using d n k by (simp add: nth_append)
    also have "\<dots> = drop (nat p) ?d ! (k - nat p)"
      using k by (simp add: Suc_diff_le)
    also have "\<dots> = ?d ! k"
      using k n by simp
    finally show ?thesis .
  qed
  with a b c f show ?thesis
    by blast
qed

text \<open>
  On the Edit that \<open>AddEdit\<close> leaves for the text \<open>12345\<close> (caret at the end, index 5)
  the rune \<open>A\<close> is appended; after the home key it would go to the front.
\<close>

theorem KeyHandler_inserts_at_caret_witness:
  "(case AddEdit no_attributes 2 4 (- 2) (Some 0) (blank_window 20 5) (\<lambda>a. ''12345'') of
      ((e, w, h), r) \<Rightarrow>
        printable_event (rune_event 65) \<and> caret_index e = 5
        \<and> e_display e = [49, 50, 51, 52, 53]
        \<and> e_display (fst (fst (KeyHandler no_attributes (rune_event 65) (e, w, h))))
            = [49, 50, 51, 52, 53, 65])"
proof -
  obtain e w h r where s: "AddEdit no_attributes 2 4 (- 2) (Some 0) (blank_window 20 5)
      (\<lambda>a. ''12345'') = ((e, w, h), r)"
    by (metis prod.exhaust)
  have c: "caret_index e = 5 \<and> e_display e = [49, 50, 51, 52, 53]"
  proof -
    have "(case AddEdit no_attributes 2 4 (- 2) (Some 0) (blank_window 20 5)
        (\<lambda>a. ''12345'') of
        ((e, w, h), r) \<Rightarrow> caret_index e = 5 \<and> e_display e = [49, 50, 51, 52, 53])"
      by code_simp
    then show ?thesis
      by (simp add: s)
  qed
  have p: "printable_event (rune_event 65)"
    by (simp add: printable_event_def rune_event_def)
  have r: "event_rune (rune_event 65) = 65"
    by (simp add: event_rune_def rune_event_def key_consts)
  from KeyHandler_inserts_at_caret [OF p refl _ _ refl, of e no_attributes w h] c r
  have "e_display (fst (fst (KeyHandler no_attributes (rune_event 65) (e, w, h))))
      = [49, 50, 51, 52, 53, 65]"
    by simp
  with c p show ?thesis
    by (simp add: s)
qed

subsection \<open>The target string of an Edit\<close>

text \<open>The heap that a call leaves, pushed through the control structure of the handler.\<close>

lemma heap_after_if:
  "snd (snd (fst (if c then a else b))) = (if c then snd (snd (fst a)) else snd (snd (fst b)))"
  by simp

lemma heap_after_option:
  "snd (snd (fst (case x of None \<Rightarrow> a | Some y \<Rightarrow> f y))) =
     (case x of None \<Rightarrow> snd (snd (fst a)) | Some y \<Rightarrow> snd (snd (fst (f y))))"
  by (cases x) simp_all

lemma heap_after_Let:
  "snd (snd (fst (Let v f))) = (let x = v in snd (snd (fst (f x))))"
  by simp

lemma heap_after_pair:
  "snd (snd (fst (case p of (a, b) \<Rightarrow> f a b))) = (case p of (a, b) \<Rightarrow> snd (snd (fst (f a b))))"
  by (cases p) simp

lemmas heap_after = heap_after_if heap_after_option heap_after_Let heap_after_pair

lemma option_case_const: "(case x of None \<Rightarrow> c | Some y \<Rightarrow> c) = c"
  by (cases x) simp_all

lemma KeyHandler_rune_heap: "snd (snd (fst (KeyHandler_rune g ev (e, w, h)))) = h"
  by (simp add: KeyHandler_rune_def heap_after Render_return_heap option_case_const
      del: Let_def split del: if_split cong: if_cong option.case_cong)

lemma KeyHandler_heap:
  "snd (snd (fst (KeyHandler g ev (e, w, h)))) =
     (if ev_Key ev = KeyEnter
      then (case e_target e of None \<Rightarrow> h | Some p \<Rightarrow> h(p := string_of_runes (e_display e)))
      else h)"
proof (cases "ev_Key ev = KeyEnter")
  case True
  then show ?thesis
    by (simp add: KeyHandler_def key_consts split: option.splits)
next
  case False
  have "snd (snd (fst (KeyHandler g ev (e, w, h)))) = h"
    unfolding KeyHandler_def prod.case
    using False
    by (simp add: heap_after Render_return_heap KeyHandler_rune_heap option_case_const
        del: Let_def split del: if_split cong: if_cong option.case_cong)
  with False show ?thesis
    by simp
qed

lemma SetText_heap: "snd (snd (fst (SetText g p end (e, w, h)))) = h"
proof (cases p)
  case None
  then show ?thesis
    by (simp add: SetText_def)
next
  case (Some a)
  let ?e1 = "e\<lparr>e_target := Some a, e_display := runes_of (h a), e_at := 0\<rparr>"
  let ?ev = "\<lparr>ev_Mod = 0, ev_Key = (if end then KeyCtrlE else KeyCtrlA), ev_Ch = 0\<rparr>"
  obtain st out where k: "KeyHandler g ?ev (?e1, w, h) = (st, out)"
    by (cases "KeyHandler g ?ev (?e1, w, h)")
  have "ev_Key ?ev \<noteq> KeyEnter"
    by (simp add: key_consts)
  then have "snd (snd (fst (KeyHandler g ?ev (?e1, w, h)))) = h"
    by (simp only: KeyHandler_heap if_False)
  then have st: "snd (snd st) = h"
    by (simp add: k)
  have "fst (SetText g p end (e, w, h)) = st"
    using Some k by (cases out) (simp_all add: SetText_def Let_def)
  then show ?thesis
    using st by simp
qed

text \<open>
  C10.  Of the operations on an Edit (\<open>KeyHandler\<close> on any event, \<open>SetText\<close>, \<open>Resize\<close>,
  \<open>Render\<close>, \<open>Focus\<close>) only \<open>KeyHandler\<close> on the enter key changes the heap of strings,
  and it changes the target of the Edit alone, to the display buffer; every other
  operation leaves every string of the heap, the target among them, as it was.
\<close>

theorem target_written_only_by_Enter:
  "snd (snd (run_operation g op (e, w, h))) =
     (if is_Enter op
      then (case e_target e of None \<Rightarrow> h | Some p \<Rightarrow> h(p := string_of_runes (e_display e)))
      else h)"
proof (cases op)
  case (OpKeyHandler ev)
  then show ?thesis
    by (simp add: is_Enter_def KeyHandler_heap)
next
  case (OpSetText p atend)
  then show ?thesis
    by (simp add: is_Enter_def SetText_heap)
qed (simp_all add: is_Enter_def)

theorem target_written_only_by_Enter_witness:
  "(let s0 = fst (AddEdit no_attributes 2 4 (- 2) (Some 0) (blank_window 20 5)
                    (\<lambda>a. ''12345''));
        s1 = run_operation no_attributes (OpKeyHandler (rune_event 65)) s0;
        s2 = run_operation no_attributes (OpKeyHandler (key_event KeyEnter)) s1
    in \<not> is_Enter (OpKeyHandler (rune_event 65))
       \<and> snd (snd s0) 0 = ''12345'' \<and> snd (snd s1) 0 = ''12345''
       \<and> is_Enter (OpKeyHandler (key_event KeyEnter))
       \<and> snd (snd s2) 0 = ''12345A'')"
proof -
  define s0 where "s0 = fst (AddEdit no_attributes 2 4 (- 2) (Some 0) (blank_window 20 5)
      (\<lambda>a. ''12345''))"
  define s1 where "s1 = run_operation no_attributes (OpKeyHandler (rune_event 65)) s0"
  have c: "snd (snd s0) 0 = ''12345'' \<and> e_target (fst s1) = Some 0
      \<and> string_of_runes (e_display (fst s1)) = ''12345A''"
    unfolding s1_def s0_def by code_simp
  have n: "\<not> is_Enter (OpKeyHandler (rune_event 65))"
    "is_Enter (OpKeyHandler (key_event KeyEnter))"
    by (simp_all add: is_Enter_def rune_event_def key_event_def key_consts)
  have h1: "snd (snd s1) = snd (snd s0)"
    using target_written_only_by_Enter [of no_attributes "OpKeyHandler (rune_event 65)"
        "fst s0" "fst (snd s0)" "snd (snd s0)"] n(1)
    by (simp add: s1_def)
  have "snd (snd (run_operation no_attributes (OpKeyHandler (key_event KeyEnter)) s1))
      = (snd (snd s1))(0 := ''12345A'')"
    using target_written_only_by_Enter [of no_attributes "OpKeyHandler (key_event KeyEnter)"
        "fst s1" "fst (snd s1)" "snd (snd s1)"] n(2) c
    by simp
  with c n h1 show ?thesis
    unfolding Let_def s1_def [symmetric] s0_def [symmetric] by simp
qed

subsection \<open>printf\<close>

text \<open>
  C5.  \<open>printf\<close> compares the column \<open>x + xx + 1\<close> with \<open>mx = w.x - x\<close>, so it stops
  after \<open>w.x - 2x\<close> glyphs: on a row of width 10 a text of two glyphs printed at column 6
  writes no cell at all, and one of eight glyphs printed at column 2 writes six.
\<close>

theorem printf_stops_at_width_minus_twice_x:
  "printf no_attributes (blank_window 10 1) 6 0 no_attributes ''ab''
     = (blank_window 10 1, Returned ())
   \<and> map Ch (backingStore (fst (printf no_attributes (blank_window 10 1) 2 0 no_attributes
          ''abcdefgh'')))
     = [0, 0, 97, 98, 99, 100, 101, 102, 0, 0]"
  by code_simp

subsection \<open>Paging a List\<close>

lemma Display_render_list: "fst (fst (Display_render g l w)) = l"
  by (simp add: Display_render_def split: option.splits prod.splits)

lemma Display_Up_position:
  assumes "l_content l \<noteq> []" "l_visibility l \<noteq> VisibilityHide"
  shows "l_at (fst (fst (Display g Up (l, w)))) = max 0 (l_at l - l_trueH l + 1)"
    and "l_paging (fst (fst (Display g Up (l, w))))"
    and "l_content (fst (fst (Display g Up (l, w)))) = l_content l"
    and "l_trueH (fst (fst (Display g Up (l, w)))) = l_trueH l"
    and "l_visibility (fst (fst (Display g Up (l, w)))) = l_visibility l"
  using assms by (simp_all add: Display_def Let_def Display_render_list)

lemma Display_Down_position:
  assumes "l_content l \<noteq> []" "l_visibility l \<noteq> VisibilityHide"
  shows "fst (fst (Display g Down (l, w))) =
           (if l_at l + l_trueH l - 1 + l_trueH l > int (length (l_content l))
            then Display_Bottom l
            else l\<lparr>l_at := l_at l + l_trueH l - 1, l_paging := True\<rparr>)"
  using assms by (simp add: Display_def Let_def Display_render_list)

text \<open>
  What page-up and then page-down do to a List that shows its bottom: the offset returns,
  and the List keeps paging unless the content is shorter than two pages less one line.
\<close>

lemma Display_Up_Down_from_bottom:
  assumes "l_content l \<noteq> []" "l_visibility l \<noteq> VisibilityHide"
    and "l_at l = int (length (l_content l)) - l_trueH l"
    and "int (length (l_content l)) > l_trueH l" "1 \<le> l_trueH l"
    and "l1 = fst (fst (Display g Up (l, w)))"
    and "l2 = fst (fst (Display g Down (l1, w1)))"
  shows "l_at l2 = l_at l"
    and "IsPaging l2 \<longleftrightarrow> 2 * l_trueH l - 1 \<le> int (length (l_content l))"
proof -
  note up = Display_Up_position [OF assms(1,2), of g w, folded assms(6)]
  have c1: "l_content l1 \<noteq> []" "l_visibility l1 \<noteq> VisibilityHide"
    using up assms(1,2) by simp_all
  note down = Display_Down_position [OF c1, of g w1, folded assms(7)]
  show "l_at l2 = l_at l"
    using up assms(3-5) unfolding down by (auto simp: Display_Bottom_def Let_def)
  show "IsPaging l2 \<longleftrightarrow> 2 * l_trueH l - 1 \<le> int (length (l_content l))"
    using up assms(3-5) unfolding down IsPaging_def
    by (auto simp: Display_Bottom_def Let_def)
qed

text \<open>
  C7.  A List of height 2 with four lines shows its bottom (offset 2, not paging).
  Page-up and then page-down bring the offset back to 2, and leave the List paging:
  \<open>IsPaging\<close> reports true although the bottom line is displayed.
\<close>

theorem Display_Up_Down_leaves_paging:
  "(case Display no_attributes Up (four_lines, blank_window 6 3) of
      (s1, r1) \<Rightarrow>
        (case Display no_attributes Down s1 of
           (s2, r2) \<Rightarrow>
             l_at four_lines = int (length (l_content four_lines)) - l_trueH four_lines
             \<and> int (length (l_content four_lines)) > l_trueH four_lines
             \<and> IsPaging four_lines = False
             \<and> r1 = Returned () \<and> r2 = Returned ()
             \<and> l_at (fst s2) = l_at four_lines
             \<and> IsPaging (fst s2) = True))"
  by code_simp

subsection \<open>focusPrevious\<close>






end
